theory Spec2Isabelle
  imports Complex_Main "HOL-Library.Word"
begin

unbundle bit_operations_syntax

section \<open>Decoded JSON values and the Python operations the code applies to them\<close>

text \<open>
  Both ends of the wire exchange what \<open>json.dumps\<close> writes and \<open>json.loads\<close> reads.
  A number is a Python \<open>int\<close> or \<open>float\<close>; the code only compares numbers, so both are
  kept by their value. \<open>json.loads\<close> also accepts the literals \<open>NaN\<close>, \<open>Infinity\<close> and
  \<open>-Infinity\<close>, which are values of their own here. A finite float is kept as the real
  number it denotes.
\<close>

datatype pynum = Fin real | PosInf | NegInf | NaN

datatype json =
    JNull
  | JBool bool
  | JNum pynum
  | JStr string
  | JArr "json list"
  | JObj "(string \<times> json) list"

datatype py_error =
    TypeError | KeyError | AttributeError | IndexError | ValueError
  | JSONDecodeError | UnicodeDecodeError | RecursionError

text \<open>Python's \<open>a < b\<close> on floats: every comparison with NaN is false.\<close>

fun num_lt :: "pynum \<Rightarrow> pynum \<Rightarrow> bool" where
  "num_lt NaN b = False"
| "num_lt a NaN = False"
| "num_lt (Fin a) (Fin b) = (a < b)"
| "num_lt (Fin a) PosInf = True"
| "num_lt (Fin a) NegInf = False"
| "num_lt PosInf b = False"
| "num_lt NegInf NegInf = False"
| "num_lt NegInf b = True"

text \<open>The numeric value of a JSON value: \<open>bool\<close> is a subclass of \<open>int\<close> in Python.\<close>

fun num_of :: "json \<Rightarrow> pynum option" where
  "num_of (JBool b) = Some (Fin (if b then 1 else 0))"
| "num_of (JNum n) = Some n"
| "num_of v = None"

text \<open>Truthiness, as \<open>if v:\<close> and \<open>not v\<close> test it.\<close>

fun truthy :: "json \<Rightarrow> bool" where
  "truthy JNull = False"
| "truthy (JBool b) = b"
| "truthy (JNum n) = (n \<noteq> Fin 0)"
| "truthy (JStr s) = (s \<noteq> [])"
| "truthy (JArr xs) = (xs \<noteq> [])"
| "truthy (JObj kvs) = (kvs \<noteq> [])"

fun is_bool :: "json \<Rightarrow> bool" where
  "is_bool (JBool b) = True"
| "is_bool v = False"

fun is_dict :: "json \<Rightarrow> bool" where
  "is_dict (JObj kvs) = True"
| "is_dict v = False"

text \<open>\<open>k in s\<close> on a string is the substring test.\<close>

fun contains :: "string \<Rightarrow> string \<Rightarrow> bool" where
  "contains k [] = (k = [])"
| "contains k (c # cs) = (take (length k) (c # cs) = k \<or> contains k cs)"

text \<open>
  \<open>k in v\<close> for a string key \<open>k\<close>: key membership on a dict, element membership on a
  list, substring on a string, and \<open>TypeError\<close> on anything that is not iterable.
\<close>

fun py_in :: "string \<Rightarrow> json \<Rightarrow> py_error + bool" where
  "py_in k (JObj kvs) = Inr (map_of kvs k \<noteq> None)"
| "py_in k (JArr xs) = Inr (JStr k \<in> set xs)"
| "py_in k (JStr s) = Inr (contains k s)"
| "py_in k v = Inl TypeError"

text \<open>\<open>v[k]\<close> for a string key: only a dict can be subscripted by a string.\<close>

fun py_getitem :: "json \<Rightarrow> string \<Rightarrow> py_error + json" where
  "py_getitem (JObj kvs) k = (case map_of kvs k of None \<Rightarrow> Inl KeyError | Some v \<Rightarrow> Inr v)"
| "py_getitem v k = Inl TypeError"

text \<open>\<open>v.get(k, d)\<close>: a method of dicts only.\<close>

fun py_get :: "json \<Rightarrow> string \<Rightarrow> json \<Rightarrow> py_error + json" where
  "py_get (JObj kvs) k d = Inr (case map_of kvs k of None \<Rightarrow> d | Some v \<Rightarrow> v)"
| "py_get v k d = Inl AttributeError"

text \<open>
  \<open>all(k in v for k in ks)\<close>: the generator stops at the first key that is missing, and
  an exception of a membership test leaves it.
\<close>

fun all_in :: "string list \<Rightarrow> json \<Rightarrow> py_error + bool" where
  "all_in [] v = Inr True"
| "all_in (k # ks) v =
     (case py_in k v of
        Inl e \<Rightarrow> Inl e
      | Inr b \<Rightarrow> if b then all_in ks v else Inr False)"

text \<open>
  \<open>min(m, v)\<close> and \<open>max(m, v)\<close> with a number \<open>m\<close> first: the built-ins keep the first
  argument unless \<open>v < m\<close> (for \<open>min\<close>) or \<open>v > m\<close> (for \<open>max\<close>) holds, and comparing a
  number with a string, a list, a dict or \<open>None\<close> raises \<open>TypeError\<close>.
\<close>

definition py_min :: "pynum \<Rightarrow> json \<Rightarrow> py_error + pynum" where
  "py_min m v =
     (case num_of v of
        None \<Rightarrow> Inl TypeError
      | Some n \<Rightarrow> Inr (if num_lt n m then n else m))"

definition py_max :: "pynum \<Rightarrow> json \<Rightarrow> py_error + pynum" where
  "py_max m v =
     (case num_of v of
        None \<Rightarrow> Inl TypeError
      | Some n \<Rightarrow> Inr (if num_lt m n then n else m))"

text \<open>\<open>v > 0.5\<close>.\<close>

definition py_gt_half :: "json \<Rightarrow> py_error + json" where
  "py_gt_half v =
     (case num_of v of
        None \<Rightarrow> Inl TypeError
      | Some n \<Rightarrow> Inr (JBool (num_lt (Fin (1/2)) n)))"

text \<open>
  A method that mutates \<open>self\<close> and may raise: the state it leaves behind, and the
  exception when one escaped. Assignments made before the exception stay.
\<close>

datatype 's outcome = Done 's | Raised py_error 's

fun final :: "'s outcome \<Rightarrow> 's" where
  "final (Done s) = s"
| "final (Raised e s) = s"

fun raised :: "'s outcome \<Rightarrow> py_error option" where
  "raised (Done s) = None"
| "raised (Raised e s) = Some e"

text \<open>Evaluate an expression in state \<open>s\<close> and go on with its value.\<close>

definition eval :: "py_error + 'a \<Rightarrow> 's \<Rightarrow> ('a \<Rightarrow> 's outcome) \<Rightarrow> 's outcome" where
  "eval x s k = (case x of Inl e \<Rightarrow> Raised e s | Inr v \<Rightarrow> k v)"

text \<open>Statement sequencing.\<close>

definition and_then :: "'s outcome \<Rightarrow> ('s \<Rightarrow> 's outcome) \<Rightarrow> 's outcome" where
  "and_then r k = (case r of Done s \<Rightarrow> k s | Raised e s \<Rightarrow> Raised e s)"

section \<open>Arrays built from decoded values\<close>

text \<open>
  \<open>np.array\<close> of a list takes every nested list as one more dimension and everything
  else (numbers, booleans, strings, dicts, \<open>None\<close>) as an element. \<open>np_shape\<close> is the shape
  it finds, and \<open>None\<close> when lists of one level differ in shape or stand next to elements
  that are not lists. Since numpy 1.24 such a ragged argument raises \<open>ValueError\<close>, and so
  does an argument with more dimensions than numpy has (64 since numpy 2.0, 32 before).
\<close>

fun np_shape :: "json \<Rightarrow> nat list option" where
  "np_shape (JArr xs) =
     (case map np_shape xs of
        [] \<Rightarrow> Some [0]
      | s # ss \<Rightarrow>
          (case s of
             None \<Rightarrow> None
           | Some sh \<Rightarrow> if list_all (\<lambda>s'. s' = Some sh) ss then Some (length xs # sh) else None))"
| "np_shape v = Some []"

definition npy_maxdims :: nat where
  "npy_maxdims = 64"

text \<open>
  The array itself is kept as the values it was built from: \<open>Array [x, y, z]\<close> stands for
  \<open>np.array([x, y, z])\<close>, whatever common element type numpy converts the three to.
\<close>

datatype ndarray = Array "json list"

definition np_array :: "json list \<Rightarrow> py_error + ndarray" where
  "np_array vs =
     (case np_shape (JArr vs) of
        None \<Rightarrow> Inl ValueError
      | Some sh \<Rightarrow> if npy_maxdims < length sh then Inl ValueError else Inr (Array vs))"

section \<open>The visualizer's receiver state (\<open>vive_matplotlib_visualizer.py\<close>)\<close>

text \<open>
  \<open>ViveControllerVisualizer\<close> keeps the same eight attributes for each hand
  (\<open>left_tracked\<close>, \<open>left_buttons\<close>, \<open>left_trigger_pressed\<close>, \<open>left_position\<close>,
  \<open>left_rotation\<close>, \<open>left_trail_x/y/z\<close> and their \<open>right_\<close> twins); they are grouped per
  hand here. The attributes hold whatever the datagram held, so they are JSON values;
  position and rotation are the arrays \<open>np.array\<close> builds from three of them.
  A trail is a \<open>deque(maxlen=max_trail_points)\<close>, oldest entry first.
\<close>

datatype hand = LeftHand | RightHand

fun hand_key :: "hand \<Rightarrow> string" where
  "hand_key LeftHand = ''left''"
| "hand_key RightHand = ''right''"

record controller =
  tracked :: json
  buttons :: json
  trigger_pressed :: json
  position :: ndarray
  rotation :: ndarray
  trail_x :: "json list"
  trail_y :: "json list"
  trail_z :: "json list"

record visualizer =
  latest_data :: json
  left :: controller
  right :: controller
  max_trail_points :: nat
  debug_mode :: bool
  min_x :: pynum
  max_x :: pynum
  min_y :: pynum
  max_y :: pynum
  min_z :: pynum
  max_z :: pynum

definition init_controller :: controller where
  "init_controller =
     \<lparr> tracked = JBool False, buttons = JObj [], trigger_pressed = JBool False,
       position = Array [JNum (Fin 0), JNum (Fin 0), JNum (Fin 0)],
       rotation = Array [JNum (Fin 0), JNum (Fin 0), JNum (Fin 0)],
       trail_x = [], trail_y = [], trail_z = [] \<rparr>"

definition init_visualizer :: "nat \<Rightarrow> visualizer" where
  "init_visualizer n =
     \<lparr> latest_data = JNull, left = init_controller, right = init_controller,
       max_trail_points = n, debug_mode = True,
       min_x = Fin 0, max_x = Fin 0, min_y = Fin 0, max_y = Fin 0,
       min_z = Fin 0, max_z = Fin 0 \<rparr>"

fun ctrl :: "hand \<Rightarrow> visualizer \<Rightarrow> controller" where
  "ctrl LeftHand s = left s"
| "ctrl RightHand s = right s"

fun upd_ctrl :: "hand \<Rightarrow> (controller \<Rightarrow> controller) \<Rightarrow> visualizer \<Rightarrow> visualizer" where
  "upd_ctrl LeftHand f s = s\<lparr>left := f (left s)\<rparr>"
| "upd_ctrl RightHand f s = s\<lparr>right := f (right s)\<rparr>"

text \<open>
  \<open>deque.append\<close> on a deque with \<open>maxlen = m\<close>: the new entry goes to the right end and,
  when the deque is over its bound, entries leave from the left end.
\<close>

definition deque_append :: "nat \<Rightarrow> 'a list \<Rightarrow> 'a \<Rightarrow> 'a list" where
  "deque_append m xs x = (let ys = xs @ [x] in drop (length ys - m) ys)"

text \<open>Lines 304--312 (left) and 357--365 (right): button states and the trigger flag.\<close>

definition update_buttons :: "hand \<Rightarrow> json \<Rightarrow> visualizer \<Rightarrow> visualizer outcome" where
  "update_buttons h entry s =
     eval (py_in ''buttons'' entry) s (\<lambda>has_buttons.
       if \<not> has_buttons then Done s
       else eval (py_getitem entry ''buttons'') s (\<lambda>b.
         let s1 = upd_ctrl h (\<lambda>c. c\<lparr>buttons := b\<rparr>) s in
         eval (py_in ''trigger'' b) s1 (\<lambda>has_trigger.
           if \<not> has_trigger then Done s1
           else eval (py_getitem b ''trigger'') s1 (\<lambda>t.
             if is_bool t then Done (upd_ctrl h (\<lambda>c. c\<lparr>trigger_pressed := t\<rparr>) s1)
             else if is_dict t then
               eval (py_get t ''pressed'' (JBool False)) s1 (\<lambda>p.
                 Done (upd_ctrl h (\<lambda>c. c\<lparr>trigger_pressed := p\<rparr>) s1))
             else Done s1))))"

text \<open>Lines 330--336 and 383--389: the six bounds, assigned one after the other.\<close>

definition update_min_max :: "json \<Rightarrow> json \<Rightarrow> json \<Rightarrow> visualizer \<Rightarrow> visualizer outcome" where
  "update_min_max x y z s =
     eval (py_min (min_x s) x) s (\<lambda>m. let s1 = s\<lparr>min_x := m\<rparr> in
     eval (py_max (max_x s1) x) s1 (\<lambda>m. let s2 = s1\<lparr>max_x := m\<rparr> in
     eval (py_min (min_y s2) y) s2 (\<lambda>m. let s3 = s2\<lparr>min_y := m\<rparr> in
     eval (py_max (max_y s3) y) s3 (\<lambda>m. let s4 = s3\<lparr>max_y := m\<rparr> in
     eval (py_min (min_z s4) z) s4 (\<lambda>m. let s5 = s4\<lparr>min_z := m\<rparr> in
     eval (py_max (max_z s5) z) s5 (\<lambda>m. Done (s5\<lparr>max_z := m\<rparr>)))))))"

text \<open>
  Lines 317--336 and 370--389: position, trail and bounds. The three coordinates are
  read and the array is built before anything is assigned.
\<close>

definition update_position :: "hand \<Rightarrow> json \<Rightarrow> visualizer \<Rightarrow> visualizer outcome" where
  "update_position h entry s =
     eval (py_in ''position'' entry) s (\<lambda>has_position.
       if \<not> has_position then Done s
       else eval (py_getitem entry ''position'') s (\<lambda>pos.
         eval (all_in [''x'', ''y'', ''z''] pos) s (\<lambda>complete.
           if \<not> complete then Done s
           else eval (py_getitem pos ''x'') s (\<lambda>x.
                eval (py_getitem pos ''y'') s (\<lambda>y.
                eval (py_getitem pos ''z'') s (\<lambda>z.
                eval (np_array [x, y, z]) s (\<lambda>a.
                  let m = max_trail_points s;
                      s1 = upd_ctrl h (\<lambda>c. c\<lparr>position := a\<rparr>) s;
                      s2 = upd_ctrl h (\<lambda>c. c\<lparr>trail_x := deque_append m (trail_x c) x\<rparr>) s1;
                      s3 = upd_ctrl h (\<lambda>c. c\<lparr>trail_y := deque_append m (trail_y c) y\<rparr>) s2;
                      s4 = upd_ctrl h (\<lambda>c. c\<lparr>trail_z := deque_append m (trail_z c) z\<rparr>) s3
                  in update_min_max x y z s4)))))))"

text \<open>Lines 339--342 and 392--395.\<close>

definition update_rotation :: "hand \<Rightarrow> json \<Rightarrow> visualizer \<Rightarrow> visualizer outcome" where
  "update_rotation h entry s =
     eval (py_in ''rotation'' entry) s (\<lambda>has_rotation.
       if \<not> has_rotation then Done s
       else eval (py_getitem entry ''rotation'') s (\<lambda>rot.
         eval (all_in [''roll'', ''pitch'', ''yaw''] rot) s (\<lambda>complete.
           if \<not> complete then Done s
           else eval (py_getitem rot ''roll'') s (\<lambda>r.
                eval (py_getitem rot ''pitch'') s (\<lambda>p.
                eval (py_getitem rot ''yaw'') s (\<lambda>y.
                eval (np_array [r, p, y]) s (\<lambda>a.
                  Done (upd_ctrl h (\<lambda>c. c\<lparr>rotation := a\<rparr>) s))))))))"

text \<open>
  Lines 345--346 and 398--399: the analog trigger. \<open>and\<close> evaluates its right operand
  only when the left one is true.
\<close>

definition update_analog_trigger :: "hand \<Rightarrow> json \<Rightarrow> visualizer \<Rightarrow> visualizer outcome" where
  "update_analog_trigger h entry s =
     eval (py_in ''analog'' entry) s (\<lambda>has_analog.
       if \<not> has_analog then Done s
       else eval (py_getitem entry ''analog'') s (\<lambda>an.
         eval (py_in ''trigger'' an) s (\<lambda>has_trigger.
           if \<not> has_trigger then Done s
           else eval (py_getitem an ''trigger'') s (\<lambda>t.
                eval (py_gt_half t) s (\<lambda>p.
                  Done (upd_ctrl h (\<lambda>c. c\<lparr>trigger_pressed := p\<rparr>) s))))))"

text \<open>Lines 296--346 for the left hand, 349--399 for the right hand.\<close>

definition update_hand :: "hand \<Rightarrow> visualizer \<Rightarrow> visualizer outcome" where
  "update_hand h s =
     eval (py_in (hand_key h) (latest_data s)) s (\<lambda>present.
       if \<not> present then Done s
       else eval (py_getitem (latest_data s) (hand_key h)) s (\<lambda>entry.
         eval (py_get entry ''tracked'' (JBool False)) s (\<lambda>t.
           let s1 = upd_ctrl h (\<lambda>c. c\<lparr>tracked := t\<rparr>) s in
           and_then (update_buttons h entry s1) (\<lambda>s2.
             if \<not> truthy (tracked (ctrl h s2)) then Done s2
             else and_then (update_position h entry s2) (\<lambda>s3.
                  and_then (update_rotation h entry s3) (\<lambda>s4.
                  update_analog_trigger h entry s4))))))"

text \<open>\<open>update_controller_data\<close>, lines 286--399.\<close>

definition update_controller_data :: "visualizer \<Rightarrow> visualizer outcome" where
  "update_controller_data s =
     (if \<not> truthy (latest_data s) then Done s
      else and_then (update_hand LeftHand s) (update_hand RightHand))"


section \<open>The example receiver (\<open>examples/custom_receiver.py\<close>)\<close>

text \<open>
  \<open>bytes.decode()\<close> is strict UTF-8: the decoder accepts exactly the well-formed byte
  sequences (no overlong forms, nothing in U+D800..U+DFFF, nothing above U+10FFFF) and raises
  \<open>UnicodeDecodeError\<close> on every other input. The result is the list of code points.
\<close>

definition continuation :: "nat \<Rightarrow> bool" where
  "continuation b = (128 \<le> b \<and> b \<le> 191)"

fun utf8 :: "nat list \<Rightarrow> nat list option" where
  "utf8 [] = Some []"
| "utf8 (b # bs) =
     (if b < 128 then map_option ((#) b) (utf8 bs)
      else if 194 \<le> b \<and> b \<le> 223 then
        (case bs of
           c1 # r \<Rightarrow>
             if continuation c1
             then map_option ((#) ((b - 192) * 64 + (c1 - 128))) (utf8 r)
             else None
         | _ \<Rightarrow> None)
      else if 224 \<le> b \<and> b \<le> 239 then
        (case bs of
           c1 # c2 # r \<Rightarrow>
             if (if b = 224 then 160 else 128) \<le> c1 \<and> c1 \<le> (if b = 237 then 159 else 191)
                \<and> continuation c2
             then map_option ((#) ((b - 224) * 4096 + (c1 - 128) * 64 + (c2 - 128))) (utf8 r)
             else None
         | _ \<Rightarrow> None)
      else if 240 \<le> b \<and> b \<le> 244 then
        (case bs of
           c1 # c2 # c3 # r \<Rightarrow>
             if (if b = 240 then 144 else 128) \<le> c1 \<and> c1 \<le> (if b = 244 then 143 else 191)
                \<and> continuation c2 \<and> continuation c3
             then map_option
                    ((#) ((b - 240) * 262144 + (c1 - 128) * 4096 + (c2 - 128) * 64 + (c3 - 128)))
                    (utf8 r)
             else None
         | _ \<Rightarrow> None)
      else None)"

definition decode :: "8 word list \<Rightarrow> py_error + nat list" where
  "decode data = (case utf8 (map unat data) of None \<Rightarrow> Inl UnicodeDecodeError | Some t \<Rightarrow> Inr t)"

text \<open>
  \<open>json.loads\<close> belongs to the standard library: it is a parameter \<open>loads\<close> of the
  receivers, from the decoded text to the value or to the exception it raises
  (\<open>JSONDecodeError\<close> on text that is not JSON).
\<close>

type_synonym loads = "nat list \<Rightarrow> py_error + json"

text \<open>What \<open>sock.recvfrom\<close> does on the non-blocking socket.\<close>

datatype recvfrom = BlockingIOError | Datagram "8 word list"

datatype line = Received_invalid_data

record history =
  hx :: "json list"
  hy :: "json list"
  hz :: "json list"

record receiver =
  rcv_latest_data :: json
  history_left :: history
  history_right :: history
  stdout :: "line list"

definition max_history :: nat where
  "max_history = 100"

definition init_receiver :: receiver where
  "init_receiver =
     \<lparr> rcv_latest_data = JNull,
       history_left = \<lparr> hx = [], hy = [], hz = [] \<rparr>,
       history_right = \<lparr> hx = [], hy = [], hz = [] \<rparr>,
       stdout = [] \<rparr>"

fun position_history :: "hand \<Rightarrow> receiver \<Rightarrow> history" where
  "position_history LeftHand s = history_left s"
| "position_history RightHand s = history_right s"

fun upd_history :: "hand \<Rightarrow> (history \<Rightarrow> history) \<Rightarrow> receiver \<Rightarrow> receiver" where
  "upd_history LeftHand f s = s\<lparr>history_left := f (history_left s)\<rparr>"
| "upd_history RightHand f s = s\<lparr>history_right := f (history_right s)\<rparr>"

text \<open>The slice \<open>xs[-n:]\<close>; \<open>xs[-0:]\<close> is the whole list.\<close>

definition last_n :: "nat \<Rightarrow> 'a list \<Rightarrow> 'a list" where
  "last_n n xs = (if n = 0 then xs else drop (length xs - n) xs)"

text \<open>Lines 53--65, the body of the loop over the two hands.\<close>

definition record_position :: "hand \<Rightarrow> receiver \<Rightarrow> receiver outcome" where
  "record_position h s =
     eval (py_in (hand_key h) (rcv_latest_data s)) s (\<lambda>present.
       if \<not> present then Done s
       else eval (py_getitem (rcv_latest_data s) (hand_key h)) s (\<lambda>entry.
         eval (py_get entry ''tracked'' (JBool False)) s (\<lambda>t.
           if \<not> truthy t then Done s
           else eval (py_getitem entry ''position'') s (\<lambda>pos.
             eval (py_getitem pos ''x'') s (\<lambda>x.
               let s1 = upd_history h (\<lambda>p. p\<lparr>hx := hx p @ [x]\<rparr>) s in
             eval (py_getitem pos ''y'') s1 (\<lambda>y.
               let s2 = upd_history h (\<lambda>p. p\<lparr>hy := hy p @ [y]\<rparr>) s1 in
             eval (py_getitem pos ''z'') s2 (\<lambda>z.
               let s3 = upd_history h (\<lambda>p. p\<lparr>hz := hz p @ [z]\<rparr>) s2 in
               if length (hx (position_history h s3)) > max_history
               then Done (upd_history h (\<lambda>p.
                      \<lparr> hx = last_n max_history (hx p),
                        hy = last_n max_history (hy p),
                        hz = last_n max_history (hz p) \<rparr>) s3)
               else Done s3)))))))"

text \<open>
  \<open>ViveDataReceiver.update\<close>, lines 41--74. The result is \<open>Inr\<close> of the returned boolean
  and the state, or \<open>Inl\<close> of the exception that leaves \<open>update\<close> and the state it leaves.
  The inner handler catches \<open>json.JSONDecodeError\<close>, the outer one \<open>BlockingIOError\<close>.
\<close>

definition update :: "loads \<Rightarrow> recvfrom \<Rightarrow> receiver \<Rightarrow> py_error \<times> receiver + bool \<times> receiver" where
  "update loads rcv s =
     (case rcv of
        BlockingIOError \<Rightarrow> Inr (False, s)
      | Datagram data \<Rightarrow>
          (case decode data of
             Inl e \<Rightarrow> Inl (e, s)
           | Inr text \<Rightarrow>
               (case loads text of
                  Inl e \<Rightarrow>
                    if e = JSONDecodeError
                    then Inr (False, s\<lparr>stdout := stdout s @ [Received_invalid_data]\<rparr>)
                    else Inl (e, s)
                | Inr d \<Rightarrow>
                    (case and_then (record_position LeftHand (s\<lparr>rcv_latest_data := d\<rparr>))
                                   (record_position RightHand) of
                       Done s' \<Rightarrow> Inr (True, s')
                     | Raised e s' \<Rightarrow> Inl (e, s')))))"

section \<open>The terminal receiver (\<open>vive_receiver3.py\<close>)\<close>

text \<open>
  \<open>receive_controller_data\<close>, lines 17--51, over the datagrams that arrive. The display
  functions only print; \<open>display\<close> stands for the selected one and tells whether it
  raised. The loop has no state besides the terminal; it is left only by an exception.
\<close>

datatype receiving = Listening | Stopped py_error

fun receive_controller_data ::
  "loads \<Rightarrow> (json \<Rightarrow> py_error option) \<Rightarrow> 8 word list list \<Rightarrow> line list \<Rightarrow> receiving \<times> line list" where
  "receive_controller_data loads display [] out = (Listening, out)"
| "receive_controller_data loads display (data # rest) out =
     (case decode data of
        Inl e \<Rightarrow> (Stopped e, out)
      | Inr text \<Rightarrow>
          (case loads text of
             Inl e \<Rightarrow>
               if e = JSONDecodeError
               then receive_controller_data loads display rest (out @ [Received_invalid_data])
               else (Stopped e, out)
           | Inr d \<Rightarrow>
               (case display d of
                  Some e \<Rightarrow> (Stopped e, out)
                | None \<Rightarrow> receive_controller_data loads display rest out)))"


section \<open>The visualizer's receiving thread\<close>

text \<open>
  Lines 255--260: in debug mode the thread prints the \<open>tracked\<close> value of each hand
  before it updates anything, with the same unchecked reads as the update.
\<close>

definition debug_tracked :: "json \<Rightarrow> unit outcome" where
  "debug_tracked d =
     eval (py_in ''left'' d) () (\<lambda>has_left.
       and_then
         (if has_left
          then eval (py_getitem d ''left'') () (\<lambda>l.
               eval (py_get l ''tracked'' (JBool False)) () (\<lambda>t. Done ()))
          else Done ())
         (\<lambda>u. eval (py_in ''right'' d) () (\<lambda>has_right.
            if has_right
            then eval (py_getitem d ''right'') () (\<lambda>r.
                 eval (py_get r ''tracked'' (JBool False)) () (\<lambda>t. Done ()))
            else Done ())))"

text \<open>
  One pass of the loop of \<open>receive_data\<close> (lines 237--284) that received a datagram:
  \<open>latest_data\<close> is assigned only when \<open>json.loads\<close> returned; then come the debug output
  and \<open>update_controller_data\<close>. \<open>JSONDecodeError\<close> is caught by the inner handler and
  every other exception by \<open>except Exception\<close>; both only print, and the loop goes on
  with the attributes as the exception left them.
\<close>

definition receive :: "loads \<Rightarrow> 8 word list \<Rightarrow> visualizer \<Rightarrow> visualizer" where
  "receive loads data s =
     (case decode data of
        Inl e \<Rightarrow> s
      | Inr text \<Rightarrow>
          (case loads text of
             Inl e \<Rightarrow> s
           | Inr d \<Rightarrow>
               let s1 = s\<lparr>latest_data := d\<rparr> in
               if debug_mode s1 \<and> raised (debug_tracked d) \<noteq> None then s1
               else final (update_controller_data s1)))"

definition receive_data :: "loads \<Rightarrow> 8 word list list \<Rightarrow> visualizer \<Rightarrow> visualizer" where
  "receive_data loads datagrams s = fold (receive loads) datagrams s"

section \<open>Floating-point operations of the sender\<close>

text \<open>
  A double is kept as the real number it denotes; the values the SDK hands over are
  taken to be finite. Arithmetic on doubles and the functions of the \<open>math\<close> module round
  their results, so they are not the operations of the real numbers: the ones
  \<open>extract_rotation_euler\<close> uses are parameters here, of which nothing is assumed but
  that they return a finite double. (\<open>x ** 2\<close> raises \<open>OverflowError\<close> when the square is
  out of range; the entries of the rotation part of a pose matrix lie within [-1, 1].)
  Negation is exact.
\<close>

record float_ops =
  float_add :: "real \<Rightarrow> real \<Rightarrow> real"
  float_square :: "real \<Rightarrow> real"
  math_sqrt :: "real \<Rightarrow> real"
  math_atan2 :: "real \<Rightarrow> real \<Rightarrow> real"
  math_degrees :: "real \<Rightarrow> real"

text \<open>\<open>extract_rotation_euler\<close>, \<open>main.py\<close> lines 19--32; a matrix is a list of rows.\<close>

definition extract_rotation_euler :: "float_ops \<Rightarrow> real list list \<Rightarrow> real \<times> real \<times> real" where
  "extract_rotation_euler fl matrix =
     (let pitch = math_atan2 fl (- (matrix ! 2 ! 0))
                    (math_sqrt fl (float_add fl (float_square fl (matrix ! 0 ! 0))
                                                (float_square fl (matrix ! 1 ! 0))));
          yaw = math_atan2 fl (matrix ! 1 ! 0) (matrix ! 0 ! 0);
          roll = math_atan2 fl (matrix ! 2 ! 1) (matrix ! 2 ! 2)
      in (math_degrees fl roll, math_degrees fl pitch, math_degrees fl yaw))"

section \<open>The sender (\<open>main.py\<close>)\<close>

text \<open>
  What the tracking SDK hands over. A pose carries the 3x4 matrix
  \<open>mDeviceToAbsoluteTracking\<close>, a controller state the two button masks and the axes.
  The button numbers are those of the SDK's header.
\<close>

record pose =
  bPoseIsValid :: bool
  bDeviceIsConnected :: bool
  mDeviceToAbsoluteTracking :: "nat \<Rightarrow> nat \<Rightarrow> real"

record controller_state =
  ulButtonPressed :: "64 word"
  ulButtonTouched :: "64 word"
  rAxis :: "(real \<times> real) list"

record vr_system =
  getDeviceToAbsoluteTrackingPose :: "nat \<Rightarrow> pose"
  getControllerState :: "nat \<Rightarrow> bool \<times> controller_state"

record controllers =
  left_idx :: "nat option"
  right_idx :: "nat option"

definition k_EButton_System :: nat where "k_EButton_System = 0"
definition k_EButton_ApplicationMenu :: nat where "k_EButton_ApplicationMenu = 1"
definition k_EButton_Grip :: nat where "k_EButton_Grip = 2"
definition k_EButton_DPad_Left :: nat where "k_EButton_DPad_Left = 3"
definition k_EButton_DPad_Up :: nat where "k_EButton_DPad_Up = 4"
definition k_EButton_DPad_Right :: nat where "k_EButton_DPad_Right = 5"
definition k_EButton_DPad_Down :: nat where "k_EButton_DPad_Down = 6"
definition k_EButton_A :: nat where "k_EButton_A = 7"
definition k_EButton_SteamVR_Touchpad :: nat where "k_EButton_SteamVR_Touchpad = 32"
definition k_EButton_SteamVR_Trigger :: nat where "k_EButton_SteamVR_Trigger = 33"

definition get_pose_matrix :: "pose \<Rightarrow> real list list" where
  "get_pose_matrix p =
     (let m = mDeviceToAbsoluteTracking p in
      [ [m 0 0, m 0 1, m 0 2, m 0 3],
        [m 1 0, m 1 1, m 1 2, m 1 3],
        [m 2 0, m 2 1, m 2 2, m 2 3],
        [0, 0, 0, 1] ])"

definition get_button_names :: "(nat \<times> string) list" where
  "get_button_names =
     [(k_EButton_System, ''System''),
      (k_EButton_ApplicationMenu, ''Menu''),
      (k_EButton_Grip, ''Grip''),
      (k_EButton_DPad_Left, ''Trackpad Left''),
      (k_EButton_DPad_Up, ''Trackpad Up''),
      (k_EButton_DPad_Right, ''Trackpad Right''),
      (k_EButton_DPad_Down, ''Trackpad Down''),
      (k_EButton_A, ''A Button''),
      (k_EButton_SteamVR_Touchpad, ''Trackpad Touch''),
      (k_EButton_SteamVR_Trigger, ''Trigger'')]"

text \<open>\<open>d[k] = v\<close> on a dict in insertion order: a known key keeps its place.\<close>

fun dict_set :: "(string \<times> json) list \<Rightarrow> string \<Rightarrow> json \<Rightarrow> (string \<times> json) list" where
  "dict_set [] k v = [(k, v)]"
| "dict_set ((k', v') # kvs) k v =
     (if k' = k then (k, v) # kvs else (k', v') # dict_set kvs k v)"

text \<open>\<open>(w & (1 << button_id)) != 0\<close> on a button mask \<open>w\<close>.\<close>

definition button_bit :: "64 word \<Rightarrow> nat \<Rightarrow> bool" where
  "button_bit w button_id = (w AND push_bit button_id 1 \<noteq> 0)"

text \<open>\<open>button_name.lower().replace(" ", "_")\<close> on the ASCII names above.\<close>

definition lower :: "string \<Rightarrow> string" where
  "lower s =
     map (\<lambda>c. let n = (of_char c :: nat) in if 65 \<le> n \<and> n \<le> 90 then char_of (n + 32) else c) s"

definition replace_space :: "string \<Rightarrow> string" where
  "replace_space s = map (\<lambda>c. if c = CHR '' '' then CHR ''_'' else c) s"

definition pressed_touched :: "bool \<Rightarrow> bool \<Rightarrow> json" where
  "pressed_touched p t = JObj [(''pressed'', JBool p), (''touched'', JBool t)]"

text \<open>Lines 166--214: the \<open>buttons\<close> dict, the main buttons first and then the loop.\<close>

definition button_states :: "controller_state \<Rightarrow> (string \<times> json) list" where
  "button_states state =
     (let pressed = ulButtonPressed state; touched = ulButtonTouched state;
          b1 = dict_set [] ''system'' (JBool (button_bit pressed k_EButton_System));
          b2 = dict_set b1 ''menu'' (JBool (button_bit pressed k_EButton_ApplicationMenu));
          b3 = dict_set b2 ''grip'' (JBool (button_bit pressed k_EButton_Grip));
          b4 = dict_set b3 ''trigger'' (JBool (button_bit pressed k_EButton_SteamVR_Trigger));
          b5 = dict_set b4 ''trackpad''
                 (pressed_touched (button_bit pressed k_EButton_SteamVR_Touchpad)
                                  (button_bit touched k_EButton_SteamVR_Touchpad))
      in fold (\<lambda>(button_id, button_name) b.
                 dict_set b (replace_space (lower button_name))
                   (pressed_touched (button_bit pressed button_id) (button_bit touched button_id)))
              get_button_names b5)"

text \<open>\<open>xs[i]\<close> on a sequence, for an index that is not negative.\<close>

definition py_index :: "'a list \<Rightarrow> nat \<Rightarrow> py_error + 'a" where
  "py_index xs i = (if i < length xs then Inr (xs ! i) else Inl IndexError)"

text \<open>Lines 216--231: the \<open>analog\<close> dict.\<close>

definition analog_inputs :: "controller_state \<Rightarrow> py_error + (string \<times> json) list" where
  "analog_inputs state =
     (case (if length (rAxis state) > 1
            then (case py_index (rAxis state) 1 of Inl e \<Rightarrow> Inl e | Inr a \<Rightarrow> Inr (fst a))
            else Inr 0) of
        Inl e \<Rightarrow> Inl e
      | Inr trigger_value \<Rightarrow>
          let analog = dict_set [] ''trigger'' (JNum (Fin trigger_value)) in
          if length (rAxis state) > 0 then
            (case py_index (rAxis state) 0 of
               Inl e \<Rightarrow> Inl e
             | Inr a \<Rightarrow>
                 Inr (dict_set analog ''trackpad''
                        (JObj [(''x'', JNum (Fin (fst a))), (''y'', JNum (Fin (snd a)))])))
          else Inr analog)"

text \<open>
  Lines 107--236, the body of the loop over the hands for a controller that was found:
  the entry \<open>controller_data[hand]\<close>.
\<close>

definition controller_entry ::
  "float_ops \<Rightarrow> vr_system \<Rightarrow> nat \<Rightarrow> py_error + (string \<times> json) list" where
  "controller_entry fl vr device_idx =
     (let p = getDeviceToAbsoluteTrackingPose vr device_idx;
          e0 = [(''tracked'', JBool False), (''position'', JObj []), (''rotation'', JObj []),
                (''buttons'', JObj []), (''analog'', JObj [])]
      in if bPoseIsValid p then
           (let pos_x = mDeviceToAbsoluteTracking p 0 3;
                pos_y = mDeviceToAbsoluteTracking p 1 3;
                pos_z = mDeviceToAbsoluteTracking p 2 3;
                matrix = get_pose_matrix p
            in case extract_rotation_euler fl matrix of (roll, pitch, yaw) \<Rightarrow>
               (case getControllerState vr device_idx of (result, state) \<Rightarrow>
                 let e1 = dict_set e0 ''tracked'' (JBool True);
                     e2 = dict_set e1 ''position''
                            (JObj [(''x'', JNum (Fin pos_x)), (''y'', JNum (Fin pos_y)),
                                   (''z'', JNum (Fin pos_z))]);
                     e3 = dict_set e2 ''rotation''
                            (JObj [(''roll'', JNum (Fin roll)), (''pitch'', JNum (Fin pitch)),
                                   (''yaw'', JNum (Fin yaw))])
                 in if result then
                      (let e4 = dict_set e3 ''raw_buttons''
                                  (JObj [(''pressed'', JNum (Fin (real (unat (ulButtonPressed state))))),
                                         (''touched'', JNum (Fin (real (unat (ulButtonTouched state)))))]);
                           e5 = dict_set e4 ''buttons'' (JObj (button_states state))
                       in case analog_inputs state of
                            Inl e \<Rightarrow> Inl e
                          | Inr analog \<Rightarrow> Inr (dict_set e5 ''analog'' (JObj analog)))
                    else Inr e3))
         else Inr e0)"

text \<open>Lines 104--236: \<open>controller_data\<close> after the loop over \<open>controllers.items()\<close>.\<close>

definition add_hand ::
  "float_ops \<Rightarrow> vr_system \<Rightarrow> string \<Rightarrow> nat option \<Rightarrow> (string \<times> json) list
     \<Rightarrow> py_error + (string \<times> json) list" where
  "add_hand fl vr hand device_idx controller_data =
     (case device_idx of
        None \<Rightarrow> Inr controller_data
      | Some i \<Rightarrow>
          (case controller_entry fl vr i of
             Inl e \<Rightarrow> Inl e
           | Inr entry \<Rightarrow> Inr (dict_set controller_data hand (JObj entry))))"

definition collect_controller_data ::
  "float_ops \<Rightarrow> controllers \<Rightarrow> vr_system \<Rightarrow> py_error + (string \<times> json) list" where
  "collect_controller_data fl cs vr =
     (case add_hand fl vr ''left'' (left_idx cs) [] of
        Inl e \<Rightarrow> Inl e
      | Inr d \<Rightarrow> add_hand fl vr ''right'' (right_idx cs) d)"

text \<open>Lines 239--245: the snapshot that goes to \<open>json.dumps\<close> and \<open>sendto\<close>.\<close>

definition snapshot :: "(string \<times> json) list \<Rightarrow> real \<Rightarrow> json" where
  "snapshot controller_data now = JObj (dict_set controller_data ''timestamp'' (JNum (Fin now)))"

text \<open>
  The loop \<open>while True\<close> of \<open>get_controller_info\<close>, lines 89--259. What happens in pass
  \<open>i\<close> comes from outside: Ctrl+C, an exception of the SDK, or the SDK's answers and the
  clock. The loop has no exit of its own; the two handlers around it end the function.
  The result is the number of completed passes and the snapshots handed to the socket,
  and \<open>None\<close> when the function never returns.
\<close>

datatype pass = KeyboardInterrupt | OpenVRError | Sample vr_system real

partial_function (option) polling_loop ::
  "float_ops \<Rightarrow> bool \<Rightarrow> controllers \<Rightarrow> (nat \<Rightarrow> pass) \<Rightarrow> nat \<Rightarrow> json list
     \<Rightarrow> (nat \<times> json list) option" where
  "polling_loop fl sending cs passes i sent =
     (case passes i of
        KeyboardInterrupt \<Rightarrow> Some (i, sent)
      | OpenVRError \<Rightarrow> Some (i, sent)
      | Sample vr now \<Rightarrow>
          (case collect_controller_data fl cs vr of
             Inl e \<Rightarrow> Some (i, sent)
           | Inr controller_data \<Rightarrow>
               polling_loop fl sending cs passes (Suc i)
                 (if sending then sent @ [snapshot controller_data now] else sent)))"

section \<open>Ordering of bounds\<close>

text \<open>\<open>a \<le> b\<close> on numbers, from the comparison the code uses.\<close>

definition num_le :: "pynum \<Rightarrow> pynum \<Rightarrow> bool" where
  "num_le a b = (a = b \<or> num_lt a b)"

text \<open>The six bounds of \<open>s'\<close> enclose those of \<open>s\<close>.\<close>

definition widened :: "visualizer \<Rightarrow> visualizer \<Rightarrow> bool" where
  "widened s s' =
     (num_le (min_x s') (min_x s) \<and> num_le (max_x s) (max_x s') \<and>
      num_le (min_y s') (min_y s) \<and> num_le (max_y s) (max_y s') \<and>
      num_le (min_z s') (min_z s) \<and> num_le (max_z s) (max_z s'))"

text \<open>The attributes of a hand that hold its pose and its trail.\<close>

definition pose_part :: "controller \<Rightarrow> ndarray \<times> ndarray \<times> json list \<times> json list \<times> json list" where
  "pose_part c = (position c, rotation c, trail_x c, trail_y c, trail_z c)"

section \<open>History bounds\<close>

text \<open>The three trails of a hand hold at most \<open>m\<close> entries each.\<close>

definition trail_bounded :: "nat \<Rightarrow> controller \<Rightarrow> bool" where
  "trail_bounded m c = (length (trail_x c) \<le> m \<and> length (trail_y c) \<le> m \<and> length (trail_z c) \<le> m)"

definition trails_bounded :: "visualizer \<Rightarrow> bool" where
  "trails_bounded s =
     (trail_bounded (max_trail_points s) (left s) \<and> trail_bounded (max_trail_points s) (right s))"

text \<open>
  The per-axis lists of a hand in the example receiver: as long as no update raised,
  the three have the same length, at most \<open>max_history\<close>.
\<close>

definition history_bounded :: "history \<Rightarrow> bool" where
  "history_bounded p =
     (length (hx p) \<le> max_history \<and> length (hy p) \<le> max_history \<and> length (hz p) \<le> max_history)"

definition history_aligned :: "history \<Rightarrow> bool" where
  "history_aligned p = (length (hy p) = length (hx p) \<and> length (hz p) = length (hx p))"

text \<open>
  Successive calls of \<open>update\<close>, one per answer of the socket, as the loop of \<open>text_mode\<close>
  makes them: the first exception that leaves \<open>update\<close> ends the loop.
\<close>

fun updates :: "loads \<Rightarrow> recvfrom list \<Rightarrow> receiver \<Rightarrow> py_error \<times> receiver + receiver" where
  "updates loads [] s = Inr s"
| "updates loads (r # rs) s =
     (case update loads r s of
        Inl x \<Rightarrow> Inl x
      | Inr (b, s') \<Rightarrow> updates loads rs s')"

definition history_ok :: "history \<Rightarrow> bool" where
  "history_ok p = (history_bounded p \<and> history_aligned p)"

text \<open>The receiver's state when the loop of updates has ended.\<close>

definition state_of :: "py_error \<times> receiver + receiver \<Rightarrow> receiver" where
  "state_of r = (case r of Inl (e, s) \<Rightarrow> s | Inr s \<Rightarrow> s)"

section \<open>What the sender transmits\<close>

fun controller_idx :: "hand \<Rightarrow> controllers \<Rightarrow> nat option" where
  "controller_idx LeftHand cs = left_idx cs"
| "controller_idx RightHand cs = right_idx cs"

text \<open>The snapshot of one pass of the loop, when the pass gets as far as the socket.\<close>

definition transmitted :: "float_ops \<Rightarrow> controllers \<Rightarrow> vr_system \<Rightarrow> real \<Rightarrow> py_error + json" where
  "transmitted fl cs vr now =
     (case collect_controller_data fl cs vr of
        Inl e \<Rightarrow> Inl e
      | Inr controller_data \<Rightarrow> Inr (snapshot controller_data now))"

section \<open>Entries of the shape the sender writes\<close>

text \<open>
  What the receiver relies on without checking it: the entry of a hand is an object;
  \<open>buttons\<close>, \<open>position\<close>, \<open>rotation\<close> and \<open>analog\<close>, where present, are objects; the
  coordinates of the position, the angles of the rotation and the analog trigger value,
  where present, are numbers.
\<close>

definition numeric_at :: "json \<Rightarrow> string \<Rightarrow> bool" where
  "numeric_at d k = (case py_getitem d k of Inl e \<Rightarrow> True | Inr v \<Rightarrow> num_of v \<noteq> None)"

definition object_at :: "(string \<times> json) list \<Rightarrow> string \<Rightarrow> bool" where
  "object_at kvs k = (case map_of kvs k of None \<Rightarrow> True | Some v \<Rightarrow> is_dict v)"

definition entry_ok :: "json \<Rightarrow> bool" where
  "entry_ok e =
     (case e of
        JObj kvs \<Rightarrow>
          object_at kvs ''buttons'' \<and> object_at kvs ''position'' \<and> object_at kvs ''rotation''
          \<and> object_at kvs ''analog''
          \<and> (case map_of kvs ''position'' of
                None \<Rightarrow> True
              | Some p \<Rightarrow> numeric_at p ''x'' \<and> numeric_at p ''y'' \<and> numeric_at p ''z'')
          \<and> (case map_of kvs ''rotation'' of
                None \<Rightarrow> True
              | Some r \<Rightarrow> numeric_at r ''roll'' \<and> numeric_at r ''pitch'' \<and> numeric_at r ''yaw'')
          \<and> (case map_of kvs ''analog'' of
                None \<Rightarrow> True
              | Some a \<Rightarrow> numeric_at a ''trigger'')
      | _ \<Rightarrow> False)"

definition snapshot_ok :: "json \<Rightarrow> bool" where
  "snapshot_ok d =
     (case d of
        JObj kvs \<Rightarrow>
          (case map_of kvs ''left'' of None \<Rightarrow> True | Some e \<Rightarrow> entry_ok e)
          \<and> (case map_of kvs ''right'' of None \<Rightarrow> True | Some e \<Rightarrow> entry_ok e)
      | _ \<Rightarrow> False)"

section \<open>Example inputs\<close>

text \<open>
  A snapshot in the schema of the wire: the left hand not tracked, with the trigger
  encoded as a boolean; the right hand tracked, with the trigger encoded as a dict whose
  \<open>pressed\<close> is false while the analog trigger value is 0.9.
\<close>

definition example_snapshot :: json where
  "example_snapshot =
     JObj [(''left'', JObj [(''tracked'', JBool False),
                            (''position'', JObj []), (''rotation'', JObj []),
                            (''buttons'', JObj [(''trigger'', JBool True)]),
                            (''analog'', JObj [])]),
           (''right'', JObj [(''tracked'', JBool True),
                             (''position'', JObj [(''x'', JNum (Fin 1)), (''y'', JNum (Fin 2)),
                                                  (''z'', JNum (Fin (- 3)))]),
                             (''rotation'', JObj [(''roll'', JNum (Fin 10)), (''pitch'', JNum (Fin 20)),
                                                  (''yaw'', JNum (Fin 30))]),
                             (''buttons'', JObj [(''trigger'', JObj [(''pressed'', JBool False),
                                                                     (''touched'', JBool True)])]),
                             (''analog'', JObj [(''trigger'', JNum (Fin (9 / 10)))])]),
           (''timestamp'', JNum (Fin 5))]"

definition example_visualizer :: visualizer where
  "example_visualizer = (init_visualizer 50)\<lparr>latest_data := example_snapshot\<rparr>"

text \<open>
  Two datagrams for the example receiver, as the bytes on the wire, and what \<open>json.loads\<close>
  returns for their text. The first is a snapshot with a complete position:
  \<^verbatim>\<open>{"left": {"tracked": true, "position": {"x": 0, "y": 0, "z": 0}}}\<close>
  and the second one lacks two coordinates:
  \<^verbatim>\<open>{"left": {"tracked": true, "position": {"x": 1}}}\<close>
\<close>

definition partial_text :: "nat list" where
  "partial_text = [123, 34, 108, 101, 102, 116, 34, 58, 32, 123, 34, 116, 114, 97, 99, 107, 101, 100, 34, 58, 32, 116, 114, 117, 101, 44, 32, 34, 112, 111, 115, 105, 116, 105, 111, 110, 34, 58, 32, 123, 34, 120, 34, 58, 32, 49, 125, 125, 125]"

definition partial_datagram :: "8 word list" where
  "partial_datagram = map of_nat partial_text"

definition partial_snapshot :: json where
  "partial_snapshot =
     JObj [(''left'', JObj [(''tracked'', JBool True),
                            (''position'', JObj [(''x'', JNum (Fin 1))])])]"

definition full_text :: "nat list" where
  "full_text = [123, 34, 108, 101, 102, 116, 34, 58, 32, 123, 34, 116, 114, 97, 99, 107, 101, 100, 34, 58, 32, 116, 114, 117, 101, 44, 32, 34, 112, 111, 115, 105, 116, 105, 111, 110, 34, 58, 32, 123, 34, 120, 34, 58, 32, 48, 44, 32, 34, 121, 34, 58, 32, 48, 44, 32, 34, 122, 34, 58, 32, 48, 125, 125, 125]"

definition full_datagram :: "8 word list" where
  "full_datagram = map of_nat full_text"

definition full_snapshot :: json where
  "full_snapshot =
     JObj [(''left'', JObj [(''tracked'', JBool True),
                            (''position'', JObj [(''x'', JNum (Fin 0)), (''y'', JNum (Fin 0)),
                                                 (''z'', JNum (Fin 0))])])]"

definition example_loads :: loads where
  "example_loads t =
     (if t = partial_text then Inr partial_snapshot
      else if t = full_text then Inr full_snapshot
      else Inl JSONDecodeError)"

text \<open>The example receiver after \<open>k\<close> snapshots with a complete position.\<close>

definition filled :: "nat \<Rightarrow> receiver" where
  "filled k =
     \<lparr> rcv_latest_data = (if k = 0 then JNull else full_snapshot),
       history_left = \<lparr> hx = replicate k (JNum (Fin 0)), hy = replicate k (JNum (Fin 0)),
                        hz = replicate k (JNum (Fin 0)) \<rparr>,
       history_right = \<lparr> hx = [], hy = [], hz = [] \<rparr>,
       stdout = [] \<rparr>"

text \<open>
  Two answers of the SDK: one where no pose is valid, and one where every pose is valid,
  the controller state is available, the trigger bit is set and two axes are reported.
\<close>

definition untracked_vr :: vr_system where
  "untracked_vr =
     \<lparr> getDeviceToAbsoluteTrackingPose =
         (\<lambda>i. \<lparr> bPoseIsValid = False, bDeviceIsConnected = True,
                 mDeviceToAbsoluteTracking = (\<lambda>r c. 0) \<rparr>),
       getControllerState =
         (\<lambda>i. (False, \<lparr> ulButtonPressed = 0, ulButtonTouched = 0, rAxis = [] \<rparr>)) \<rparr>"

definition tracked_vr :: vr_system where
  "tracked_vr =
     \<lparr> getDeviceToAbsoluteTrackingPose =
         (\<lambda>i. \<lparr> bPoseIsValid = True, bDeviceIsConnected = True,
                 mDeviceToAbsoluteTracking = (\<lambda>r c. if c = 3 then 1 / 2 else if r = c then 1 else 0) \<rparr>),
       getControllerState =
         (\<lambda>i. (True, \<lparr> ulButtonPressed = push_bit 33 1, ulButtonTouched = 0,
                        rAxis = [(1 / 4, - (1 / 4)), (3 / 4, 0)] \<rparr>)) \<rparr>"

text \<open>
  The example receiver after one hundred snapshots with a complete position and one
  whose position has only \<open>x\<close>.
\<close>

definition overfull :: receiver where
  "overfull =
     \<lparr> rcv_latest_data = partial_snapshot,
       history_left = \<lparr> hx = replicate 100 (JNum (Fin 0)) @ [JNum (Fin 1)],
                        hy = replicate 100 (JNum (Fin 0)), hz = replicate 100 (JNum (Fin 0)) \<rparr>,
       history_right = \<lparr> hx = [], hy = [], hz = [] \<rparr>,
       stdout = [] \<rparr>"

text \<open>
  An instance of the floating-point operations for the examples: every operation
  returns 0.
\<close>

definition zero_ops :: float_ops where
  "zero_ops =
     \<lparr> float_add = (\<lambda>x y. 0), float_square = (\<lambda>x. 0), math_sqrt = (\<lambda>x. 0),
       math_atan2 = (\<lambda>y x. 0), math_degrees = (\<lambda>x. 0) \<rparr>"

section \<open>Basic facts about outcomes and the per-hand attributes\<close>

lemma eval_simps [simp]:
  "eval (Inl e) s k = Raised e s"
  "eval (Inr v) s k = k v"
  by (simp_all add: eval_def)

lemma and_then_simps [simp]:
  "and_then (Done s) k = k s"
  "and_then (Raised e s) k = Raised e s"
  by (simp_all add: and_then_def)

lemma ctrl_upd_same [simp]: "ctrl h (upd_ctrl h f s) = f (ctrl h s)"
  by (cases h) simp_all

lemma ctrl_upd_other [simp]: "h' \<noteq> h \<Longrightarrow> ctrl h' (upd_ctrl h f s) = ctrl h' s"
  by (cases h; cases h') simp_all

lemma upd_ctrl_fields [simp]:
  "latest_data (upd_ctrl h f s) = latest_data s"
  "max_trail_points (upd_ctrl h f s) = max_trail_points s"
  "debug_mode (upd_ctrl h f s) = debug_mode s"
  "min_x (upd_ctrl h f s) = min_x s" "max_x (upd_ctrl h f s) = max_x s"
  "min_y (upd_ctrl h f s) = min_y s" "max_y (upd_ctrl h f s) = max_y s"
  "min_z (upd_ctrl h f s) = min_z s" "max_z (upd_ctrl h f s) = max_z s"
  by (cases h; simp)+

lemma min_max_ctrl: "ctrl h (final (update_min_max x y z s)) = ctrl h s"
  by (cases h) (auto simp: update_min_max_def eval_def Let_def split: sum.splits)

lemma min_max_frame:
  "latest_data (final (update_min_max x y z s)) = latest_data s"
  "max_trail_points (final (update_min_max x y z s)) = max_trail_points s"
  by (auto simp: update_min_max_def eval_def Let_def split: sum.splits)

lemma min_max_Done_ctrl: "update_min_max x y z s = Done s' \<Longrightarrow> ctrl h s' = ctrl h s"
  using min_max_ctrl [of h x y z s] by simp

lemmas vis_defs = update_controller_data_def update_hand_def update_buttons_def
  update_position_def update_rotation_def update_analog_trigger_def update_min_max_def
  py_min_def py_max_def py_gt_half_def deque_append_def Let_def
  np_array_def npy_maxdims_def init_visualizer_def init_controller_def


section \<open>Trigger state resolution\<close>

lemma getitem_in: "py_getitem v k = Inr x \<Longrightarrow> py_in k v = Inr True"
  by (cases v) (auto split: option.splits)


lemma and_then_Done: "and_then r k = Done s' \<Longrightarrow> \<exists>s1. r = Done s1 \<and> k s1 = Done s'"
  by (cases r) simp_all

lemma final_and_then: "final (and_then r k) = (case r of Done s \<Rightarrow> final (k s) | Raised e s \<Rightarrow> s)"
  by (cases r) simp_all












lemma hand_latest: "latest_data (final (update_hand h s)) = latest_data s"
proof -
  have b: "latest_data (final (update_buttons h e s1)) = latest_data s1" for e s1
    by (auto simp: update_buttons_def eval_def Let_def split: sum.splits)
  have p: "latest_data (final (update_position h e s1)) = latest_data s1" for e s1
    by (auto simp: update_position_def eval_def Let_def min_max_frame split: sum.splits)
  have r: "latest_data (final (update_rotation h e s1)) = latest_data s1" for e s1
    by (auto simp: update_rotation_def eval_def Let_def split: sum.splits)
  have a: "latest_data (final (update_analog_trigger h e s1)) = latest_data s1" for e s1
    by (auto simp: update_analog_trigger_def eval_def Let_def split: sum.splits)
  have step: "latest_data (final (and_then (update_buttons h e s1) (\<lambda>s2.
             if \<not> truthy (tracked (ctrl h s2)) then Done s2
             else and_then (update_position h e s2) (\<lambda>s3.
                  and_then (update_rotation h e s3) (\<lambda>s4.
                  update_analog_trigger h e s4))))) = latest_data s1" for e s1
    using b [of e s1]
    apply (cases "update_buttons h e s1"; simp)
    subgoal for s2
      using p [of e s2]
      apply (cases "update_position h e s2"; simp)
      subgoal for s3
        using r [of e s3]
        apply (cases "update_rotation h e s3"; simp)
        subgoal for s4
          using a [of e s4] by simp
        done
      done
    done
  show ?thesis
    by (auto simp: update_hand_def eval_def Let_def step split: sum.splits)
qed



section \<open>Snapshots that never make the update raise\<close>

lemma is_dict_obj: "is_dict v \<Longrightarrow> \<exists>kvs. v = JObj kvs"
  by (cases v) simp_all

lemma buttons_total:
  assumes "object_at kvs ''buttons''"
  shows "\<exists>s'. update_buttons h (JObj kvs) s = Done s'"
proof (cases "map_of kvs ''buttons''")
  case None
  then show ?thesis by (simp add: update_buttons_def)
next
  case (Some b)
  with assms obtain bs where b: "b = JObj bs" by (auto simp: object_at_def dest: is_dict_obj)
  show ?thesis
  proof (cases "map_of bs ''trigger''")
    case None
    with Some b show ?thesis by (simp add: update_buttons_def Let_def)
  next
    case t: (Some t)
    with Some b show ?thesis
      by (cases t) (simp_all add: update_buttons_def Let_def)
  qed
qed

lemma min_max_total:
  assumes "num_of x \<noteq> None" "num_of y \<noteq> None" "num_of z \<noteq> None"
  shows "\<exists>s'. update_min_max x y z s = Done s'"
  using assms by (auto simp: update_min_max_def py_min_def py_max_def Let_def)

lemma np_shape_numeric: "num_of v \<noteq> None \<Longrightarrow> np_shape v = Some []"
  by (cases v) simp_all

lemma np_array_numeric:
  assumes "num_of x \<noteq> None" "num_of y \<noteq> None" "num_of z \<noteq> None"
  shows "np_array [x, y, z] = Inr (Array [x, y, z])"
  using assms by (simp add: np_array_def npy_maxdims_def np_shape_numeric)

lemma position_total:
  assumes "object_at kvs ''position''"
    and "case map_of kvs ''position'' of None \<Rightarrow> True
         | Some p \<Rightarrow> numeric_at p ''x'' \<and> numeric_at p ''y'' \<and> numeric_at p ''z''"
  shows "\<exists>s'. update_position h (JObj kvs) s = Done s'"
proof (cases "map_of kvs ''position''")
  case None
  then show ?thesis by (simp add: update_position_def)
next
  case (Some p)
  with assms(1) obtain ps where p: "p = JObj ps" by (auto simp: object_at_def dest: is_dict_obj)
  from assms(2) Some p have n: "numeric_at (JObj ps) ''x''" "numeric_at (JObj ps) ''y''"
    "numeric_at (JObj ps) ''z''" by simp_all
  show ?thesis
  proof (cases "map_of ps ''x'' \<noteq> None \<and> map_of ps ''y'' \<noteq> None \<and> map_of ps ''z'' \<noteq> None")
    case False
    with Some p show ?thesis by (auto simp: update_position_def)
  next
    case True
    then obtain x y z where xyz: "map_of ps ''x'' = Some x" "map_of ps ''y'' = Some y"
      "map_of ps ''z'' = Some z" by blast
    with n have num: "num_of x \<noteq> None" "num_of y \<noteq> None" "num_of z \<noteq> None"
      by (simp_all add: numeric_at_def)
    from min_max_total [OF num] np_array_numeric [OF num] Some p xyz show ?thesis
      by (simp add: update_position_def Let_def)
  qed
qed

lemma rotation_total:
  assumes "object_at kvs ''rotation''"
    and "case map_of kvs ''rotation'' of None \<Rightarrow> True
         | Some r \<Rightarrow> numeric_at r ''roll'' \<and> numeric_at r ''pitch'' \<and> numeric_at r ''yaw''"
  shows "\<exists>s'. update_rotation h (JObj kvs) s = Done s'"
proof (cases "map_of kvs ''rotation''")
  case None
  then show ?thesis by (simp add: update_rotation_def)
next
  case (Some r)
  with assms(1) obtain rs where r: "r = JObj rs" by (auto simp: object_at_def dest: is_dict_obj)
  from assms(2) Some r have n: "numeric_at (JObj rs) ''roll''" "numeric_at (JObj rs) ''pitch''"
    "numeric_at (JObj rs) ''yaw''" by simp_all
  show ?thesis
  proof (cases "map_of rs ''roll'' \<noteq> None \<and> map_of rs ''pitch'' \<noteq> None \<and> map_of rs ''yaw'' \<noteq> None")
    case False
    with Some r show ?thesis by (auto simp: update_rotation_def)
  next
    case True
    then obtain x y z where xyz: "map_of rs ''roll'' = Some x" "map_of rs ''pitch'' = Some y"
      "map_of rs ''yaw'' = Some z" by blast
    with n have num: "num_of x \<noteq> None" "num_of y \<noteq> None" "num_of z \<noteq> None"
      by (simp_all add: numeric_at_def)
    from np_array_numeric [OF num] Some r xyz show ?thesis
      by (simp add: update_rotation_def)
  qed
qed

lemma analog_total:
  assumes "object_at kvs ''analog''"
    and "case map_of kvs ''analog'' of None \<Rightarrow> True | Some a \<Rightarrow> numeric_at a ''trigger''"
  shows "\<exists>s'. update_analog_trigger h (JObj kvs) s = Done s'"
proof (cases "map_of kvs ''analog''")
  case None
  then show ?thesis by (simp add: update_analog_trigger_def)
next
  case (Some a)
  with assms(1) obtain as where a: "a = JObj as" by (auto simp: object_at_def dest: is_dict_obj)
  show ?thesis
  proof (cases "map_of as ''trigger''")
    case None
    with Some a show ?thesis by (simp add: update_analog_trigger_def)
  next
    case t: (Some t)
    with assms(2) Some a have "num_of t \<noteq> None" by (simp add: numeric_at_def)
    with Some a t show ?thesis
      by (auto simp: update_analog_trigger_def py_gt_half_def)
  qed
qed

lemma hand_total:
  assumes "latest_data s = JObj snap"
    and "case map_of snap (hand_key h) of None \<Rightarrow> True | Some e \<Rightarrow> entry_ok e"
  shows "\<exists>s'. update_hand h s = Done s'"
proof (cases "map_of snap (hand_key h)")
  case None
  with assms(1) show ?thesis by (simp add: update_hand_def)
next
  case (Some e)
  with assms(2) have ok: "entry_ok e" by simp
  then obtain kvs where e: "e = JObj kvs" by (cases e) (simp_all add: entry_ok_def)
  from ok e have o: "object_at kvs ''buttons''" "object_at kvs ''position''"
      "object_at kvs ''rotation''" "object_at kvs ''analog''"
    and p: "case map_of kvs ''position'' of None \<Rightarrow> True
         | Some p \<Rightarrow> numeric_at p ''x'' \<and> numeric_at p ''y'' \<and> numeric_at p ''z''"
    and a: "case map_of kvs ''analog'' of None \<Rightarrow> True | Some a \<Rightarrow> numeric_at a ''trigger''"
    and ro: "case map_of kvs ''rotation'' of None \<Rightarrow> True
         | Some r \<Rightarrow> numeric_at r ''roll'' \<and> numeric_at r ''pitch'' \<and> numeric_at r ''yaw''"
    by (simp_all add: entry_ok_def)
  obtain t where t: "py_get e ''tracked'' (JBool False) = Inr t" using e by simp
  let ?s1 = "upd_ctrl h (\<lambda>c. c\<lparr>tracked := t\<rparr>) s"
  from buttons_total [OF o(1)] obtain s2 where s2: "update_buttons h (JObj kvs) ?s1 = Done s2"
    by blast
  from position_total [OF o(2) p] obtain s3 where s3: "update_position h (JObj kvs) s2 = Done s3"
    by blast
  from rotation_total [OF o(3) ro] obtain s4 where s4: "update_rotation h (JObj kvs) s3 = Done s4"
    by blast
  from analog_total [OF o(4) a] obtain s5 where s5: "update_analog_trigger h (JObj kvs) s4 = Done s5"
    by blast
  from assms(1) Some e t s2 s3 s4 s5 show ?thesis
    by (simp add: update_hand_def Let_def)
qed

lemma update_total:
  assumes "snapshot_ok (latest_data s)"
  shows "\<exists>s'. update_controller_data s = Done s'"
proof -
  from assms obtain snap where snap: "latest_data s = JObj snap"
    by (cases "latest_data s") (simp_all add: snapshot_ok_def)
  with assms have l: "case map_of snap (hand_key LeftHand) of None \<Rightarrow> True | Some e \<Rightarrow> entry_ok e"
    and r: "case map_of snap (hand_key RightHand) of None \<Rightarrow> True | Some e \<Rightarrow> entry_ok e"
    by (simp_all add: snapshot_ok_def)
  from hand_total [OF snap l] obtain s1 where s1: "update_hand LeftHand s = Done s1" by blast
  have "latest_data s1 = JObj snap"
    using hand_latest [of LeftHand s] s1 snap by simp
  from hand_total [OF this r] obtain s2 where "update_hand RightHand s1 = Done s2" by blast
  with s1 show ?thesis
    by (simp add: update_controller_data_def)
qed





section \<open>Auto-scaling bounds\<close>

lemma num_le_refl [simp]: "num_le a a"
  by (simp add: num_le_def)

lemma num_lt_trans: "num_lt a b \<Longrightarrow> num_lt b c \<Longrightarrow> num_lt a c"
  by (cases a; cases b; cases c) auto

lemma num_le_trans: "num_le a b \<Longrightarrow> num_le b c \<Longrightarrow> num_le a c"
  by (auto simp: num_le_def dest: num_lt_trans)

lemma py_min_le: "py_min m v = Inr r \<Longrightarrow> num_le r m"
  by (auto simp: py_min_def num_le_def split: option.splits if_splits)

lemma py_max_ge: "py_max m v = Inr r \<Longrightarrow> num_le m r"
  by (auto simp: py_max_def num_le_def split: option.splits if_splits)

lemma widened_refl [simp]: "widened s s"
  by (simp add: widened_def)

lemma widened_trans: "widened s s1 \<Longrightarrow> widened s1 s2 \<Longrightarrow> widened s s2"
  unfolding widened_def by (meson num_le_trans)

lemma widened_upd_ctrl [simp]: "widened s (upd_ctrl h f s')  = widened s s'"
  by (simp add: widened_def)

lemma eval_widened:
  assumes "\<And>v. x = Inr v \<Longrightarrow> widened s0 (final (k v))" and "widened s0 s"
  shows "widened s0 (final (eval x s k))"
  using assms by (cases x) simp_all

lemma min_max_widened: "widened s (final (update_min_max x y z s))"
  unfolding update_min_max_def Let_def
  apply (rule eval_widened; (simp; fail)?)
  apply (rule eval_widened) defer
  apply (auto simp: widened_def dest: py_min_le)[1]
  apply (rule eval_widened) defer
  apply (auto simp: widened_def dest: py_min_le py_max_ge)[1]
  apply (rule eval_widened) defer
  apply (auto simp: widened_def dest: py_min_le py_max_ge)[1]
  apply (rule eval_widened) defer
  apply (auto simp: widened_def dest: py_min_le py_max_ge)[1]
  apply (rule eval_widened) defer
  apply (auto simp: widened_def dest: py_min_le py_max_ge)[1]
  apply (auto simp: widened_def dest: py_min_le py_max_ge)[1]
  done

lemma min_max_widened2: "widened s (final (update_min_max x y z s))"
  by (auto simp: update_min_max_def eval_def Let_def widened_def
      dest!: py_min_le py_max_ge split: sum.splits)

lemma widened_from_upd [simp]: "widened (upd_ctrl h f s) s' = widened s s'"
  by (simp add: widened_def)

lemma buttons_widened: "widened s (final (update_buttons h e s))"
  by (auto simp: update_buttons_def eval_def Let_def split: sum.splits)

lemma position_widened: "widened s (final (update_position h e s))"
proof -
  have "widened s' (final (update_min_max x y z s'))" for x y z s'
    by (rule min_max_widened2)
  from this [of "upd_ctrl h f (upd_ctrl h g (upd_ctrl h k (upd_ctrl h l s)))" for f g k l]
  have w: "widened s (final (update_min_max x y z
             (upd_ctrl h f (upd_ctrl h g (upd_ctrl h k (upd_ctrl h l s))))))" for x y z f g k l
    by simp
  show ?thesis
    by (auto simp: update_position_def eval_def Let_def w split: sum.splits)
qed

lemma rotation_widened: "widened s (final (update_rotation h e s))"
  by (auto simp: update_rotation_def eval_def Let_def split: sum.splits)

lemma analog_widened: "widened s (final (update_analog_trigger h e s))"
  by (auto simp: update_analog_trigger_def eval_def Let_def split: sum.splits)

lemma and_then_widened:
  assumes "widened s0 (final r)" and "\<And>s1. r = Done s1 \<Longrightarrow> widened s1 (final (k s1))"
  shows "widened s0 (final (and_then r k))"
  using assms by (cases r) (auto intro: widened_trans)

lemma hand_widened: "widened s (final (update_hand h s))"
proof -
  have step: "widened s1 (final (and_then (update_buttons h e s1) (\<lambda>s2.
             if \<not> truthy (tracked (ctrl h s2)) then Done s2
             else and_then (update_position h e s2) (\<lambda>s3.
                  and_then (update_rotation h e s3) (\<lambda>s4.
                  update_analog_trigger h e s4)))))" for e s1
    by (intro and_then_widened buttons_widened)
       (auto intro!: and_then_widened position_widened rotation_widened analog_widened)
  from step [of "upd_ctrl h f s" for f]
  have step': "widened s (final (and_then (update_buttons h e (upd_ctrl h f s)) (\<lambda>s2.
             if \<not> truthy (tracked (ctrl h s2)) then Done s2
             else and_then (update_position h e s2) (\<lambda>s3.
                  and_then (update_rotation h e s3) (\<lambda>s4.
                  update_analog_trigger h e s4)))))" for e f
    by simp
  show ?thesis
    by (auto simp: update_hand_def eval_def Let_def step' split: sum.splits)
qed

lemma update_widened: "widened s (final (update_controller_data s))"
  unfolding update_controller_data_def
  by (auto intro!: and_then_widened hand_widened)

lemma widened_latest [simp]: "widened (s\<lparr>latest_data := d\<rparr>) s' = widened s s'"
  by (simp add: widened_def)

lemma widened_to_latest [simp]: "widened s (s'\<lparr>latest_data := d\<rparr>) = widened s s'"
  by (simp add: widened_def)

lemma receive_widened: "widened s (receive loads data s)"
  using update_widened [of "s\<lparr>latest_data := d\<rparr>" for d]
  by (auto simp: receive_def Let_def split: sum.splits)

lemma receive_data_widened: "widened s (receive_data loads datagrams s)"
  unfolding receive_data_def
proof (induction datagrams arbitrary: s)
  case Nil
  show ?case by simp
next
  case (Cons d ds)
  show ?case
    using widened_trans [OF receive_widened [of s loads d] Cons.IH [of "receive loads d s"]]
    by simp
qed

text \<open>
  Claim C8. Across every sequence of datagrams the receiving thread handles, from any
  state, each of \<open>min_x\<close>, \<open>min_y\<close>, \<open>min_z\<close> never increases and each of \<open>max_x\<close>,
  \<open>max_y\<close>, \<open>max_z\<close> never decreases, whether or not an update raised part-way; and
  in every state reached from the initial one (so after any update that recorded a
  tracked position) \<open>min \<le> max\<close> holds on each axis.
\<close>

theorem bounds_monotone:
  "num_le (min_x (receive_data loads datagrams s)) (min_x s)
   \<and> num_le (min_y (receive_data loads datagrams s)) (min_y s)
   \<and> num_le (min_z (receive_data loads datagrams s)) (min_z s)
   \<and> num_le (max_x s) (max_x (receive_data loads datagrams s))
   \<and> num_le (max_y s) (max_y (receive_data loads datagrams s))
   \<and> num_le (max_z s) (max_z (receive_data loads datagrams s))
   \<and> num_le (min_x (receive_data loads datagrams (init_visualizer n)))
             (max_x (receive_data loads datagrams (init_visualizer n)))
   \<and> num_le (min_y (receive_data loads datagrams (init_visualizer n)))
             (max_y (receive_data loads datagrams (init_visualizer n)))
   \<and> num_le (min_z (receive_data loads datagrams (init_visualizer n)))
             (max_z (receive_data loads datagrams (init_visualizer n)))"
proof -
  have w: "widened s (receive_data loads datagrams s)"
    by (rule receive_data_widened)
  let ?r = "receive_data loads datagrams (init_visualizer n)"
  have "widened (init_visualizer n) ?r"
    by (rule receive_data_widened)
  then have z: "num_le (min_x ?r) (Fin 0)" "num_le (Fin 0) (max_x ?r)"
      "num_le (min_y ?r) (Fin 0)" "num_le (Fin 0) (max_y ?r)"
      "num_le (min_z ?r) (Fin 0)" "num_le (Fin 0) (max_z ?r)"
    by (simp_all add: widened_def init_visualizer_def)
  have "num_le (min_x ?r) (max_x ?r)" "num_le (min_y ?r) (max_y ?r)" "num_le (min_z ?r) (max_z ?r)"
    using z by (blast intro: num_le_trans)+
  with w show ?thesis
    by (simp add: widened_def)
qed


text \<open>The example snapshot, received by a new visualizer.\<close>

lemma example_update:
  "final (update_controller_data example_visualizer) =
     example_visualizer
       \<lparr> left := init_controller\<lparr> buttons := JObj [(''trigger'', JBool True)],
                                  trigger_pressed := JBool True \<rparr>,
         right := \<lparr> tracked = JBool True,
                    buttons = JObj [(''trigger'', JObj [(''pressed'', JBool False),
                                                        (''touched'', JBool True)])],
                    trigger_pressed = JBool True,
                    position = Array [JNum (Fin 1), JNum (Fin 2), JNum (Fin (- 3))],
                    rotation = Array [JNum (Fin 10), JNum (Fin 20), JNum (Fin 30)],
                    trail_x = [JNum (Fin 1)], trail_y = [JNum (Fin 2)], trail_z = [JNum (Fin (- 3))] \<rparr>,
         max_x := Fin 1, max_y := Fin 2, min_z := Fin (- 3) \<rparr>"
  by (simp add: example_visualizer_def example_snapshot_def vis_defs)


theorem bounds_monotone_witness:
  "receive_data (\<lambda>t. Inr example_snapshot) [ [] ] (init_visualizer 50)
     = final (update_controller_data example_visualizer)
   \<and> min_z (final (update_controller_data example_visualizer)) = Fin (- 3)
   \<and> max_x (final (update_controller_data example_visualizer)) = Fin 1
   \<and> num_le (min_z (final (update_controller_data example_visualizer))) (Fin 0)
   \<and> num_le (min_x (final (update_controller_data example_visualizer)))
             (max_x (final (update_controller_data example_visualizer)))"
proof -
  have r: "receive_data (\<lambda>t. Inr example_snapshot) [ [] ] (init_visualizer 50)
     = final (update_controller_data example_visualizer)"
    by (simp add: receive_data_def receive_def decode_def example_visualizer_def
        debug_tracked_def example_snapshot_def)
  let ?f = "final (update_controller_data example_visualizer)"
  have "num_le (min_z (receive_data (\<lambda>t. Inr example_snapshot) [ [] ] (init_visualizer 50)))
               (min_z (init_visualizer 50))
      \<and> num_le (min_x (receive_data (\<lambda>t. Inr example_snapshot) [ [] ] (init_visualizer 50)))
               (max_x (receive_data (\<lambda>t. Inr example_snapshot) [ [] ] (init_visualizer 50)))"
    using bounds_monotone [of "\<lambda>t. Inr example_snapshot" "[ [] ]" "init_visualizer 50" 50]
    by simp
  then have m: "num_le (min_z ?f) (Fin 0) \<and> num_le (min_x ?f) (max_x ?f)"
    unfolding r by (simp add: init_visualizer_def)
  have v: "min_z ?f = Fin (- 3)" "max_x ?f = Fin 1"
    unfolding example_update by simp_all
  from r m v show ?thesis by simp
qed


section \<open>A hand that is not tracked\<close>

lemma buttons_pose: "pose_part (ctrl h' (final (update_buttons h e s))) = pose_part (ctrl h' s)"
  by (cases "h' = h")
     (auto simp: update_buttons_def eval_def Let_def pose_part_def split: sum.splits)











section \<open>History buffers\<close>

lemma deque_append_length: "length (deque_append m xs x) \<le> m"
  by (simp add: deque_append_def Let_def)

lemma deque_append_full: "length xs = m \<Longrightarrow> 0 < m \<Longrightarrow> deque_append m xs x = tl xs @ [x]"
  by (cases xs) (simp_all add: deque_append_def Let_def)

lemma last_n_full: "length xs = max_history \<Longrightarrow> last_n max_history (xs @ [x]) = tl xs @ [x]"
  by (cases xs) (simp_all add: last_n_def max_history_def)

lemma trails_bounded_ctrl:
  "trails_bounded s = (\<forall>h. trail_bounded (max_trail_points s) (ctrl h s))"
proof -
  have "(\<forall>h. P h) = (P LeftHand \<and> P RightHand)" for P
    by (metis hand.exhaust)
  then show ?thesis by (simp add: trails_bounded_def)
qed

lemma trail_bounded_cong:
  "trail_x c' = trail_x c \<Longrightarrow> trail_y c' = trail_y c \<Longrightarrow> trail_z c' = trail_z c \<Longrightarrow>
   trail_bounded m c' = trail_bounded m c"
  by (simp add: trail_bounded_def)

lemma buttons_trail_eq:
  "trail_x (ctrl h' (final (update_buttons h e s))) = trail_x (ctrl h' s)"
  "trail_y (ctrl h' (final (update_buttons h e s))) = trail_y (ctrl h' s)"
  "trail_z (ctrl h' (final (update_buttons h e s))) = trail_z (ctrl h' s)"
  using buttons_pose [of h' h e s] by (simp_all add: pose_part_def)

lemma buttons_mtp: "max_trail_points (final (update_buttons h e s)) = max_trail_points s"
  by (auto simp: update_buttons_def eval_def Let_def split: sum.splits)

lemma rotation_trail_eq:
  "trail_x (ctrl h' (final (update_rotation h e s))) = trail_x (ctrl h' s)"
  "trail_y (ctrl h' (final (update_rotation h e s))) = trail_y (ctrl h' s)"
  "trail_z (ctrl h' (final (update_rotation h e s))) = trail_z (ctrl h' s)"
  by (cases "h' = h"; auto simp: update_rotation_def eval_def Let_def split: sum.splits)+

lemma rotation_mtp: "max_trail_points (final (update_rotation h e s)) = max_trail_points s"
  by (auto simp: update_rotation_def eval_def Let_def split: sum.splits)

lemma analog_trail_eq:
  "trail_x (ctrl h' (final (update_analog_trigger h e s))) = trail_x (ctrl h' s)"
  "trail_y (ctrl h' (final (update_analog_trigger h e s))) = trail_y (ctrl h' s)"
  "trail_z (ctrl h' (final (update_analog_trigger h e s))) = trail_z (ctrl h' s)"
  by (cases "h' = h"; auto simp: update_analog_trigger_def eval_def Let_def split: sum.splits)+

lemma analog_mtp: "max_trail_points (final (update_analog_trigger h e s)) = max_trail_points s"
  by (auto simp: update_analog_trigger_def eval_def Let_def split: sum.splits)

lemma position_mtp: "max_trail_points (final (update_position h e s)) = max_trail_points s"
  by (auto simp: update_position_def eval_def Let_def min_max_frame split: sum.splits)

lemma buttons_trails: "trails_bounded (final (update_buttons h e s)) = trails_bounded s"
  by (simp add: trails_bounded_ctrl trail_bounded_def buttons_mtp buttons_trail_eq)

lemma rotation_trails: "trails_bounded (final (update_rotation h e s)) = trails_bounded s"
  by (simp add: trails_bounded_ctrl trail_bounded_def rotation_mtp rotation_trail_eq)

lemma analog_trails: "trails_bounded (final (update_analog_trigger h e s)) = trails_bounded s"
  by (simp add: trails_bounded_ctrl trail_bounded_def analog_mtp analog_trail_eq)

lemma position_trail_len:
  assumes "length (trail_x (ctrl h' s)) \<le> max_trail_points s"
    "length (trail_y (ctrl h' s)) \<le> max_trail_points s"
    "length (trail_z (ctrl h' s)) \<le> max_trail_points s"
  shows "length (trail_x (ctrl h' (final (update_position h e s)))) \<le> max_trail_points s"
    "length (trail_y (ctrl h' (final (update_position h e s)))) \<le> max_trail_points s"
    "length (trail_z (ctrl h' (final (update_position h e s)))) \<le> max_trail_points s"
  using assms
  by (cases "h' = h"; auto simp: update_position_def eval_def Let_def min_max_ctrl
      deque_append_length split: sum.splits)+

lemma position_trails:
  assumes "trails_bounded s"
  shows "trails_bounded (final (update_position h e s))"
  using assms position_trail_len [of _ s h e]
  by (simp add: trails_bounded_ctrl position_mtp trail_bounded_def)

lemma and_then_trails:
  assumes "trails_bounded (final r)"
    and "\<And>s1. r = Done s1 \<Longrightarrow> trails_bounded s1 \<Longrightarrow> trails_bounded (final (k s1))"
  shows "trails_bounded (final (and_then r k))"
  using assms by (cases r) auto

lemma hand_trails:
  assumes "trails_bounded s"
  shows "trails_bounded (final (update_hand h s))"
proof -
  have step: "trails_bounded (final (and_then (update_buttons h e s1) (\<lambda>s2.
             if \<not> truthy (tracked (ctrl h s2)) then Done s2
             else and_then (update_position h e s2) (\<lambda>s3.
                  and_then (update_rotation h e s3) (\<lambda>s4.
                  update_analog_trigger h e s4)))))" if "trails_bounded s1" for e s1
    using that
    by (intro and_then_trails)
       (auto intro!: and_then_trails position_trails simp: buttons_trails rotation_trails analog_trails)
  have "trails_bounded (upd_ctrl h (\<lambda>c. c\<lparr>tracked := t\<rparr>) s)" for t
    using assms by (cases h) (simp_all add: trails_bounded_def trail_bounded_def)
  from step [OF this] assms show ?thesis
    by (auto simp: update_hand_def eval_def Let_def split: sum.splits)
qed

lemma update_trails: "trails_bounded s \<Longrightarrow> trails_bounded (final (update_controller_data s))"
  unfolding update_controller_data_def
  by (auto intro!: and_then_trails hand_trails)

lemma receive_trails: "trails_bounded s \<Longrightarrow> trails_bounded (receive loads data s)"
proof -
  assume b: "trails_bounded s"
  have b': "trails_bounded (s\<lparr>latest_data := d\<rparr>)" for d
    using b by (simp add: trails_bounded_def)
  from update_trails [OF b'] b b' show ?thesis
    by (auto simp: receive_def Let_def split: sum.splits)
qed

lemma receive_data_trails:
  "trails_bounded s \<Longrightarrow> trails_bounded (receive_data loads datagrams s)"
  unfolding receive_data_def
  by (induction datagrams arbitrary: s) (simp_all add: receive_trails)

lemma and_then_mtp:
  assumes "max_trail_points (final r) = m"
    and "\<And>s1. r = Done s1 \<Longrightarrow> max_trail_points (final (k s1)) = max_trail_points s1"
  shows "max_trail_points (final (and_then r k)) = m"
  using assms by (cases r) auto

lemma hand_mtp: "max_trail_points (final (update_hand h s)) = max_trail_points s"
proof -
  have step: "max_trail_points (final (and_then (update_buttons h e s1) (\<lambda>s2.
             if \<not> truthy (tracked (ctrl h s2)) then Done s2
             else and_then (update_position h e s2) (\<lambda>s3.
                  and_then (update_rotation h e s3) (\<lambda>s4.
                  update_analog_trigger h e s4))))) = max_trail_points s1" for e s1
    by (intro and_then_mtp)
       (auto intro!: and_then_mtp simp: buttons_mtp position_mtp rotation_mtp analog_mtp)
  show ?thesis
    by (auto simp: update_hand_def eval_def Let_def step split: sum.splits)
qed

lemma update_mtp: "max_trail_points (final (update_controller_data s)) = max_trail_points s"
  unfolding update_controller_data_def
  by (auto intro!: and_then_mtp simp: hand_mtp)

lemma receive_mtp: "max_trail_points (receive loads data s) = max_trail_points s"
  using update_mtp [of "s\<lparr>latest_data := d\<rparr>" for d]
  by (auto simp: receive_def Let_def split: sum.splits)

lemma receive_data_mtp: "max_trail_points (receive_data loads datagrams s) = max_trail_points s"
  unfolding receive_data_def
  by (induction datagrams arbitrary: s) (simp_all add: receive_mtp)

lemma decode_partial: "decode partial_datagram = Inr partial_text"
  by (simp add: decode_def partial_datagram_def partial_text_def continuation_def)

lemma decode_full: "decode full_datagram = Inr full_text"
  by (simp add: decode_def full_datagram_def full_text_def continuation_def)

lemma loads_partial: "example_loads partial_text = Inr partial_snapshot"
  by (simp add: example_loads_def)

lemma loads_full: "example_loads full_text = Inr full_snapshot"
  by (simp add: example_loads_def full_text_def partial_text_def)

lemma decode_ff: "decode [255] = Inl UnicodeDecodeError"
  by (simp add: decode_def continuation_def)

lemma history_upd_same [simp]: "position_history h (upd_history h f s) = f (position_history h s)"
  by (cases h) simp_all

lemma history_upd_other [simp]:
  "h' \<noteq> h \<Longrightarrow> position_history h' (upd_history h f s) = position_history h' s"
  by (cases h; cases h') simp_all

lemma upd_history_fields [simp]:
  "rcv_latest_data (upd_history h f s) = rcv_latest_data s"
  "stdout (upd_history h f s) = stdout s"
  by (cases h; simp)+

lemma record_position_ok:
  assumes "record_position h s = Done s'" and "history_ok (position_history h' s)"
  shows "history_ok (position_history h' s')"
  using assms
  by (cases "h' = h")
     (auto simp: record_position_def eval_def Let_def history_ok_def history_bounded_def
        history_aligned_def last_n_def max_history_def split: sum.splits if_splits)

lemma update_ok:
  assumes "update loads rcv s = Inr (b, s')" and "\<forall>h. history_ok (position_history h s)"
  shows "\<forall>h. history_ok (position_history h s')"
proof (cases rcv)
  case BlockingIOError
  with assms show ?thesis by (simp add: update_def)
next
  case (Datagram data)
  show ?thesis
  proof (cases "decode data")
    case (Inl e)
    with assms Datagram show ?thesis by (simp add: update_def)
  next
    case (Inr t)
    show ?thesis
    proof (cases "loads t")
      case (Inl e)
      have "position_history h (s\<lparr>stdout := out\<rparr>) = position_history h s" for h out
        by (cases h) simp_all
      with assms Datagram Inr Inl show ?thesis
        by (auto simp: update_def split: if_splits)
    next
      case d: (Inr d)
      let ?s0 = "s\<lparr>rcv_latest_data := d\<rparr>"
      have p0: "position_history h ?s0 = position_history h s" for h
        by (cases h) simp_all
      from assms(1) Datagram Inr d
      have "and_then (record_position LeftHand ?s0) (record_position RightHand) = Done s'"
        by (auto simp: update_def split: outcome.splits)
      then obtain s1 where l: "record_position LeftHand ?s0 = Done s1"
        and r: "record_position RightHand s1 = Done s'"
        by (auto dest: and_then_Done)
      show ?thesis
        using record_position_ok [OF r] record_position_ok [OF l] assms(2) p0 by simp
    qed
  qed
qed

lemma updates_ok:
  assumes "updates loads rcvs s = Inr s'" and "\<forall>h. history_ok (position_history h s)"
  shows "\<forall>h. history_ok (position_history h s')"
  using assms
proof (induction rcvs arbitrary: s)
  case Nil
  then show ?case by simp
next
  case (Cons r rs)
  from Cons.prems(1) obtain b s1 where u: "update loads r s = Inr (b, s1)"
    and rest: "updates loads rs s1 = Inr s'"
    by (auto split: sum.splits)
  from Cons.IH [OF rest update_ok [OF u Cons.prems(2)]] show ?case .
qed

lemma init_receiver_ok: "history_ok (position_history h init_receiver)"
  by (cases h)
     (simp_all add: init_receiver_def history_ok_def history_bounded_def history_aligned_def)

lemma filled_step:
  assumes "k < 100"
  shows "update example_loads (Datagram full_datagram) (filled k) = Inr (True, filled (Suc k))"
  using assms
  by (simp add: update_def decode_full loads_full record_position_def filled_def
      full_snapshot_def max_history_def Let_def replicate_append_same)

lemma filled_run:
  "k + n \<le> 100 \<Longrightarrow>
   updates example_loads (replicate n (Datagram full_datagram) @ rest) (filled k) =
   updates example_loads rest (filled (k + n))"
proof (induction n arbitrary: k)
  case 0
  then show ?case by simp
next
  case (Suc n)
  then have "k < 100" by simp
  from filled_step [OF this] Suc.IH [of "Suc k"] Suc.prems show ?case by simp
qed

lemma filled_0: "filled 0 = init_receiver"
  by (simp add: filled_def init_receiver_def)

lemma partial_step:
  "update example_loads (Datagram partial_datagram) (filled 100) =
     Inl (KeyError, (filled 100)
       \<lparr> rcv_latest_data := partial_snapshot,
         history_left := \<lparr> hx = replicate 100 (JNum (Fin 0)) @ [JNum (Fin 1)],
                           hy = replicate 100 (JNum (Fin 0)), hz = replicate 100 (JNum (Fin 0)) \<rparr> \<rparr>)"
  by (simp add: update_def decode_partial loads_partial record_position_def filled_def
      partial_snapshot_def Let_def)


text \<open>
  In the visualizer every trail holds at most \<open>max_trail_points\<close> entries after every
  sequence of datagrams, whatever they are: a trail is a \<open>deque\<close> with that \<open>maxlen\<close>.
\<close>

lemma visualizer_trails_bounded:
  "length (trail_x (ctrl h (receive_data loads datagrams (init_visualizer n)))) \<le> n
   \<and> length (trail_y (ctrl h (receive_data loads datagrams (init_visualizer n)))) \<le> n
   \<and> length (trail_z (ctrl h (receive_data loads datagrams (init_visualizer n)))) \<le> n"
proof -
  let ?r = "receive_data loads datagrams (init_visualizer n)"
  have "trails_bounded (init_visualizer n)"
    by (simp add: trails_bounded_def trail_bounded_def init_visualizer_def init_controller_def)
  then have "trails_bounded ?r" by (rule receive_data_trails)
  moreover have "max_trail_points ?r = n"
    by (simp add: receive_data_mtp init_visualizer_def)
  ultimately have "trail_bounded n (ctrl h ?r)"
    by (simp add: trails_bounded_ctrl)
  then show ?thesis by (simp add: trail_bounded_def)
qed

text \<open>
  In the example receiver the three lists of a hand have the same length, at most
  \<open>max_history\<close>, as long as no call of \<open>update\<close> has raised.
\<close>

lemma receiver_history_bounded:
  assumes "updates loads rcvs init_receiver = Inr s'"
  shows "length (hx (position_history h s')) \<le> max_history
       \<and> length (hy (position_history h s')) = length (hx (position_history h s'))
       \<and> length (hz (position_history h s')) = length (hx (position_history h s'))"
proof -
  have "history_ok (position_history h s')"
    using updates_ok [OF assms] init_receiver_ok by simp
  then show ?thesis
    by (auto simp: history_ok_def history_bounded_def history_aligned_def)
qed

text \<open>
  A position recorded into full buffers drops the oldest entry of each: in the
  visualizer by the \<open>deque\<close>, in the example receiver by the slice that trims the lists
  once all three reads of the position have succeeded.
\<close>

lemma update_position_drops_oldest:
  assumes "py_getitem e ''position'' = Inr pos"
    and "py_getitem pos ''x'' = Inr x" and "py_getitem pos ''y'' = Inr y"
    and "py_getitem pos ''z'' = Inr z"
    and "np_array [x, y, z] = Inr a"
    and "length (trail_x (ctrl h s)) = max_trail_points s"
    and "length (trail_y (ctrl h s)) = max_trail_points s"
    and "length (trail_z (ctrl h s)) = max_trail_points s"
    and "0 < max_trail_points s"
  shows "trail_x (ctrl h (final (update_position h e s))) = tl (trail_x (ctrl h s)) @ [x]
     \<and> trail_y (ctrl h (final (update_position h e s))) = tl (trail_y (ctrl h s)) @ [y]
     \<and> trail_z (ctrl h (final (update_position h e s))) = tl (trail_z (ctrl h s)) @ [z]"
  using assms getitem_in [OF assms(1)] getitem_in [OF assms(2)] getitem_in [OF assms(3)]
    getitem_in [OF assms(4)]
  by (simp add: update_position_def Let_def min_max_ctrl deque_append_full)

lemma record_position_drops_oldest:
  assumes "py_getitem (rcv_latest_data s) (hand_key h) = Inr e"
    and "py_get e ''tracked'' (JBool False) = Inr t" and "truthy t"
    and "py_getitem e ''position'' = Inr pos"
    and "py_getitem pos ''x'' = Inr x" and "py_getitem pos ''y'' = Inr y"
    and "py_getitem pos ''z'' = Inr z"
    and "length (hx (position_history h s)) = max_history"
    and "length (hy (position_history h s)) = max_history"
    and "length (hz (position_history h s)) = max_history"
  shows "\<exists>s'. record_position h s = Done s'
     \<and> hx (position_history h s') = tl (hx (position_history h s)) @ [x]
     \<and> hy (position_history h s') = tl (hy (position_history h s)) @ [y]
     \<and> hz (position_history h s') = tl (hz (position_history h s)) @ [z]"
  using assms getitem_in [OF assms(1)]
  by (simp add: record_position_def Let_def last_n_full)

lemma overfull_run:
  "updates example_loads
     (replicate 100 (Datagram full_datagram) @ [Datagram partial_datagram]) init_receiver
   = Inl (KeyError, overfull)"
proof -
  have "updates example_loads
         (replicate 100 (Datagram full_datagram) @ [Datagram partial_datagram]) init_receiver
        = updates example_loads [Datagram partial_datagram] (filled 100)"
    using filled_run [of 0 100 "[Datagram partial_datagram]"] by (simp add: filled_0)
  moreover have "(filled 100)
       \<lparr> rcv_latest_data := partial_snapshot,
         history_left := \<lparr> hx = replicate 100 (JNum (Fin 0)) @ [JNum (Fin 1)],
                           hy = replicate 100 (JNum (Fin 0)), hz = replicate 100 (JNum (Fin 0)) \<rparr> \<rparr>
       = overfull"
    by (simp add: overfull_def filled_def)
  ultimately show ?thesis
    by (simp add: partial_step)
qed


text \<open>
  Claim C6 at a failing input of the example receiver: one hundred datagrams
  \<open>{"left": {"tracked": true, "position": {"x": 0, "y": 0, "z": 0}}}\<close>, then the datagram
  \<open>{"left": {"tracked": true, "position": {"x": 1}}}\<close>. The last call of \<open>update\<close> appends 1
  to the full \<open>x\<close> list and then raises \<open>KeyError\<close> at \<open>pos["y"]\<close>, before the lines that
  trim the history: the \<open>x\<close> list is left with 101 entries, one more than \<open>max_history\<close>
  and one more than the \<open>y\<close> and \<open>z\<close> lists, and the oldest entry has not been dropped.
  The visualizer reads the same position only after \<open>all(k in pos for k in ["x", "y", "z"])\<close>
  and keeps its bound on the same datagrams.
\<close>

theorem history_exceeds_bound_after_partial_position:
  "updates example_loads
     (replicate 100 (Datagram full_datagram) @ [Datagram partial_datagram]) init_receiver
   = Inl (KeyError, overfull)
   \<and> max_history = 100
   \<and> length (hx (position_history LeftHand overfull)) = 101
   \<and> length (hy (position_history LeftHand overfull)) = 100
   \<and> length (hz (position_history LeftHand overfull)) = 100
   \<and> hd (hx (position_history LeftHand overfull)) = hd (hx (position_history LeftHand (filled 100)))"
  by (simp add: overfull_run max_history_def) (simp add: overfull_def filled_def)


section \<open>Datagrams that cannot be decoded\<close>

lemma invalid_json_is_reported:
  assumes "decode data = Inr t" and "loads t = Inl JSONDecodeError"
  shows "update loads (Datagram data) s = Inr (False, s\<lparr>stdout := stdout s @ [Received_invalid_data]\<rparr>)"
    and "receive_controller_data loads display (data # rest) out =
         receive_controller_data loads display rest (out @ [Received_invalid_data])"
  using assms by (simp_all add: update_def)


text \<open>
  Claim C7 at the datagram that consists of the single byte \<open>0xFF\<close>: it is not valid
  UTF-8, so \<open>data.decode()\<close> raises \<open>UnicodeDecodeError\<close>, which the handler for
  \<open>json.JSONDecodeError\<close> does not catch. The exception leaves \<open>update\<close> of the example
  receiver and ends the loop of \<open>receive_controller_data\<close>, with the state unchanged
  and nothing printed; the visualizer's thread, whose outer handler catches every
  exception, goes on.
\<close>

theorem undecodable_datagram_escapes:
  "update loads (Datagram [255]) s = Inl (UnicodeDecodeError, s)
   \<and> receive_controller_data loads display ([255] # rest) out = (Stopped UnicodeDecodeError, out)
   \<and> receive loads [255] v = v"
  by (simp add: update_def receive_def decode_ff)

section \<open>The snapshot the sender builds\<close>

lemma map_of_dict_set: "map_of (dict_set kvs k v) = (map_of kvs)(k \<mapsto> v)"
  by (induction kvs) (auto simp: fun_eq_iff)

lemma analog_inputs_eq:
  "analog_inputs state =
     Inr ((''trigger'', JNum (Fin (if 1 < length (rAxis state) then fst (rAxis state ! 1) else 0)))
          # (if 0 < length (rAxis state)
             then [(''trackpad'', JObj [(''x'', JNum (Fin (fst (rAxis state ! 0)))),
                                        (''y'', JNum (Fin (snd (rAxis state ! 0))))])]
             else []))"
  by (auto simp: analog_inputs_def py_index_def Let_def)

lemma controller_entry_untracked:
  "\<not> bPoseIsValid (getDeviceToAbsoluteTrackingPose vr i) \<Longrightarrow>
   controller_entry fl vr i = Inr [(''tracked'', JBool False), (''position'', JObj []), (''rotation'', JObj []),
         (''buttons'', JObj []), (''analog'', JObj [])]"
  by (simp add: controller_entry_def Let_def)

lemma controller_entry_keys:
  "\<exists>entry. controller_entry fl vr i = Inr entry
     \<and> map_of entry ''tracked'' = Some (JBool (bPoseIsValid (getDeviceToAbsoluteTrackingPose vr i)))
     \<and> (\<exists>p. map_of entry ''position'' = Some (JObj p))
     \<and> (\<exists>r. map_of entry ''rotation'' = Some (JObj r))
     \<and> (\<exists>b. map_of entry ''buttons'' = Some (JObj b))
     \<and> (\<exists>a. map_of entry ''analog'' = Some (JObj a))"
  by (auto simp: controller_entry_def Let_def analog_inputs_eq split: prod.splits)

lemma controller_entry_analog:
  assumes "bPoseIsValid (getDeviceToAbsoluteTrackingPose vr i)"
    and "getControllerState vr i = (True, state)"
  shows "\<exists>entry. controller_entry fl vr i = Inr entry
     \<and> map_of entry ''analog'' =
         Some (JObj ((''trigger'', JNum (Fin (if 1 < length (rAxis state) then fst (rAxis state ! 1) else 0)))
          # (if 0 < length (rAxis state)
             then [(''trackpad'', JObj [(''x'', JNum (Fin (fst (rAxis state ! 0)))),
                                        (''y'', JNum (Fin (snd (rAxis state ! 0))))])]
             else [])))"
  using assms
  by (auto simp: controller_entry_def Let_def analog_inputs_eq split: prod.splits)




lemma add_hand_None [simp]: "add_hand fl vr k None d = Inr d"
  by (simp add: add_hand_def)

lemma add_hand_Some:
  "controller_entry fl vr i = Inr entry \<Longrightarrow> add_hand fl vr k (Some i) d = Inr (dict_set d k (JObj entry))"
  by (simp add: add_hand_def)

lemma collect_lookup:
  "\<exists>data. collect_controller_data fl cs vr = Inr data
     \<and> map_of data ''timestamp'' = None
     \<and> (\<forall>h. map_of data (hand_key h) =
            (case controller_idx h cs of None \<Rightarrow> None
             | Some i \<Rightarrow> (case controller_entry fl vr i of Inr entry \<Rightarrow> Some (JObj entry) | Inl e \<Rightarrow> None)))"
proof -
  have all_hand: "(\<forall>h. P h) = (P LeftHand \<and> P RightHand)" for P
    by (metis hand.exhaust)
  show ?thesis
  proof (cases "left_idx cs")
    case None
    show ?thesis
    proof (cases "right_idx cs")
      case rn: None
      with None show ?thesis by (simp add: collect_controller_data_def all_hand)
    next
      case (Some j)
      from controller_entry_keys [of fl vr j] obtain ej where "controller_entry fl vr j = Inr ej" by blast
      with None Some show ?thesis
        by (simp add: collect_controller_data_def all_hand add_hand_Some)
    qed
  next
    case (Some i)
    from controller_entry_keys [of fl vr i] obtain ei where ei: "controller_entry fl vr i = Inr ei" by blast
    show ?thesis
    proof (cases "right_idx cs")
      case None
      with Some ei show ?thesis
        by (simp add: collect_controller_data_def all_hand add_hand_Some)
    next
      case sj: (Some j)
      from controller_entry_keys [of fl vr j] obtain ej where "controller_entry fl vr j = Inr ej" by blast
      with Some sj ei show ?thesis
        by (simp add: collect_controller_data_def all_hand add_hand_Some)
    qed
  qed
qed

lemma transmitted_lookup:
  "\<exists>items. transmitted fl cs vr now = Inr (JObj items)
     \<and> map_of items ''timestamp'' = Some (JNum (Fin now))
     \<and> (\<forall>h. map_of items (hand_key h) =
            (case controller_idx h cs of None \<Rightarrow> None
             | Some i \<Rightarrow> (case controller_entry fl vr i of Inr entry \<Rightarrow> Some (JObj entry) | Inl e \<Rightarrow> None)))"
proof -
  from collect_lookup [of fl cs vr] obtain data where d: "collect_controller_data fl cs vr = Inr data"
    and l: "\<forall>h. map_of data (hand_key h) =
            (case controller_idx h cs of None \<Rightarrow> None
             | Some i \<Rightarrow> (case controller_entry fl vr i of Inr entry \<Rightarrow> Some (JObj entry) | Inl e \<Rightarrow> None))"
    by blast
  have k: "hand_key h \<noteq> ''timestamp''" for h by (cases h) simp_all
  show ?thesis
    using d l k by (simp add: transmitted_def snapshot_def map_of_dict_set)
qed

text \<open>
  Claim C10. The analog reads never index outside \<open>rAxis\<close>: building the \<open>analog\<close> dict
  never raises, the trigger value is \<open>rAxis[1].x\<close> when the state has more than one axis
  and \<open>0.0\<close> otherwise, and the \<open>trackpad\<close> entry, read from \<open>rAxis[0]\<close>, is there exactly
  when the state has at least one axis. For a controller with a valid pose and an
  available state this dict is the \<open>analog\<close> entry of the snapshot.
\<close>

theorem analog_reads_guarded:
  "analog_inputs state =
     Inr ((''trigger'', JNum (Fin (if 1 < length (rAxis state) then fst (rAxis state ! 1) else 0)))
          # (if 0 < length (rAxis state)
             then [(''trackpad'', JObj [(''x'', JNum (Fin (fst (rAxis state ! 0)))),
                                        (''y'', JNum (Fin (snd (rAxis state ! 0))))])]
             else []))
   \<and> (bPoseIsValid (getDeviceToAbsoluteTrackingPose vr i) \<and> getControllerState vr i = (True, state)
        \<longrightarrow> (\<exists>entry. controller_entry fl vr i = Inr entry \<and>
               map_of entry ''analog'' =
                 Some (JObj ((''trigger'',
                              JNum (Fin (if 1 < length (rAxis state) then fst (rAxis state ! 1) else 0)))
                   # (if 0 < length (rAxis state)
                      then [(''trackpad'', JObj [(''x'', JNum (Fin (fst (rAxis state ! 0)))),
                                                 (''y'', JNum (Fin (snd (rAxis state ! 0))))])]
                      else [])))))"
  using controller_entry_analog [of vr i state fl]
  by (simp add: analog_inputs_eq)

text \<open>A state without axes, one with a single axis, and the two axes of the example.\<close>

theorem analog_reads_guarded_witness:
  "analog_inputs \<lparr> ulButtonPressed = 0, ulButtonTouched = 0, rAxis = [] \<rparr>
     = Inr [(''trigger'', JNum (Fin 0))]
   \<and> analog_inputs \<lparr> ulButtonPressed = 0, ulButtonTouched = 0, rAxis = [(1 / 4, - (1 / 4))] \<rparr>
     = Inr [(''trigger'', JNum (Fin 0)),
            (''trackpad'', JObj [(''x'', JNum (Fin (1 / 4))), (''y'', JNum (Fin (- (1 / 4))))])]
   \<and> (\<exists>entry. controller_entry zero_ops tracked_vr 1 = Inr entry \<and>
         map_of entry ''analog'' =
           Some (JObj [(''trigger'', JNum (Fin (3 / 4))),
                       (''trackpad'', JObj [(''x'', JNum (Fin (1 / 4))), (''y'', JNum (Fin (- (1 / 4))))])]))"
proof -
  have a: "analog_inputs \<lparr> ulButtonPressed = 0, ulButtonTouched = 0, rAxis = [] \<rparr>
     = Inr [(''trigger'', JNum (Fin 0))]"
    using analog_reads_guarded [of "\<lparr> ulButtonPressed = 0, ulButtonTouched = 0, rAxis = [] \<rparr>"]
    by simp
  have b: "analog_inputs \<lparr> ulButtonPressed = 0, ulButtonTouched = 0, rAxis = [(1 / 4, - (1 / 4))] \<rparr>
     = Inr [(''trigger'', JNum (Fin 0)),
            (''trackpad'', JObj [(''x'', JNum (Fin (1 / 4))), (''y'', JNum (Fin (- (1 / 4))))])]"
    using analog_reads_guarded
      [of "\<lparr> ulButtonPressed = 0, ulButtonTouched = 0, rAxis = [(1 / 4, - (1 / 4))] \<rparr>"]
    by simp
  have v: "bPoseIsValid (getDeviceToAbsoluteTrackingPose tracked_vr 1)"
    "getControllerState tracked_vr 1 =
       (True, \<lparr> ulButtonPressed = push_bit 33 1, ulButtonTouched = 0,
                rAxis = [(1 / 4, - (1 / 4)), (3 / 4, 0)] \<rparr>)"
    by (simp_all add: tracked_vr_def)
  have c: "\<exists>entry. controller_entry zero_ops tracked_vr 1 = Inr entry \<and>
         map_of entry ''analog'' =
           Some (JObj [(''trigger'', JNum (Fin (3 / 4))),
                       (''trackpad'', JObj [(''x'', JNum (Fin (1 / 4))), (''y'', JNum (Fin (- (1 / 4))))])])"
    using analog_reads_guarded [of _ tracked_vr 1 zero_ops, THEN conjunct2, rule_format, OF conjI, OF v]
    by simp
  from a b c show ?thesis by blast
qed

text \<open>
  Claim C5. For every controller found at startup, the entry of its hand in the
  transmitted snapshot has the boolean \<open>tracked\<close>, true exactly when the SDK reports the
  pose as valid, and when it is false \<open>position\<close>, \<open>rotation\<close>, \<open>buttons\<close> and \<open>analog\<close>
  are the empty objects they were initialised to.
\<close>

theorem tracked_iff_pose_valid:
  assumes "controller_idx h cs = Some i"
  shows "\<exists>items entry. transmitted fl cs vr now = Inr (JObj items)
     \<and> map_of items (hand_key h) = Some (JObj entry)
     \<and> map_of entry ''tracked'' = Some (JBool (bPoseIsValid (getDeviceToAbsoluteTrackingPose vr i)))
     \<and> (\<not> bPoseIsValid (getDeviceToAbsoluteTrackingPose vr i) \<longrightarrow>
          map_of entry ''position'' = Some (JObj []) \<and> map_of entry ''rotation'' = Some (JObj [])
        \<and> map_of entry ''buttons'' = Some (JObj []) \<and> map_of entry ''analog'' = Some (JObj []))"
proof -
  from transmitted_lookup [of fl cs vr now] obtain items
    where t: "transmitted fl cs vr now = Inr (JObj items)"
      and l: "\<forall>h. map_of items (hand_key h) =
            (case controller_idx h cs of None \<Rightarrow> None
             | Some i \<Rightarrow> (case controller_entry fl vr i of Inr entry \<Rightarrow> Some (JObj entry) | Inl e \<Rightarrow> None))"
    by blast
  from controller_entry_keys [of fl vr i] obtain entry where e: "controller_entry fl vr i = Inr entry"
    and tr: "map_of entry ''tracked'' = Some (JBool (bPoseIsValid (getDeviceToAbsoluteTrackingPose vr i)))"
    by blast
  from l assms e have m: "map_of items (hand_key h) = Some (JObj entry)" by simp
  have "map_of entry ''position'' = Some (JObj []) \<and> map_of entry ''rotation'' = Some (JObj [])
        \<and> map_of entry ''buttons'' = Some (JObj []) \<and> map_of entry ''analog'' = Some (JObj [])"
    if "\<not> bPoseIsValid (getDeviceToAbsoluteTrackingPose vr i)"
    using controller_entry_untracked [OF that] e by auto
  with t m tr show ?thesis by blast
qed

text \<open>A left controller without a valid pose, a right controller with one.\<close>

theorem tracked_iff_pose_valid_witness:
  "(\<exists>items entry. transmitted zero_ops \<lparr> left_idx = Some 1, right_idx = None \<rparr> untracked_vr 5 = Inr (JObj items)
      \<and> map_of items ''left'' = Some (JObj entry)
      \<and> map_of entry ''tracked'' = Some (JBool False)
      \<and> map_of entry ''position'' = Some (JObj []) \<and> map_of entry ''analog'' = Some (JObj []))
   \<and> (\<exists>items entry. transmitted zero_ops \<lparr> left_idx = None, right_idx = Some 2 \<rparr> tracked_vr 5 = Inr (JObj items)
      \<and> map_of items ''right'' = Some (JObj entry)
      \<and> map_of entry ''tracked'' = Some (JBool True))"
proof -
  have a: "controller_idx LeftHand \<lparr> left_idx = Some 1, right_idx = None \<rparr> = Some 1"
    and b: "controller_idx RightHand \<lparr> left_idx = None, right_idx = Some 2 \<rparr> = Some 2"
    by simp_all
  have u: "\<not> bPoseIsValid (getDeviceToAbsoluteTrackingPose untracked_vr 1)"
    and v: "bPoseIsValid (getDeviceToAbsoluteTrackingPose tracked_vr 2)"
    by (simp_all add: untracked_vr_def tracked_vr_def)
  from tracked_iff_pose_valid [OF a, of zero_ops untracked_vr 5] u
  have l: "\<exists>items entry. transmitted zero_ops \<lparr> left_idx = Some 1, right_idx = None \<rparr> untracked_vr 5 = Inr (JObj items)
      \<and> map_of items ''left'' = Some (JObj entry)
      \<and> map_of entry ''tracked'' = Some (JBool False)
      \<and> map_of entry ''position'' = Some (JObj []) \<and> map_of entry ''analog'' = Some (JObj [])"
    by auto
  from tracked_iff_pose_valid [OF b, of zero_ops tracked_vr 5] v
  have r: "\<exists>items entry. transmitted zero_ops \<lparr> left_idx = None, right_idx = Some 2 \<rparr> tracked_vr 5 = Inr (JObj items)
      \<and> map_of items ''right'' = Some (JObj entry)
      \<and> map_of entry ''tracked'' = Some (JBool True)"
    by auto
  from l r show ?thesis by blast
qed




text \<open>What the sender transmits has the shape the receiver relies on.\<close>

lemma controller_entry_ok: "controller_entry fl vr i = Inr entry \<Longrightarrow> entry_ok (JObj entry)"
  by (auto simp: controller_entry_def Let_def analog_inputs_eq entry_ok_def object_at_def
      numeric_at_def map_of_dict_set split: prod.splits if_splits)

lemma transmitted_ok: "transmitted fl cs vr now = Inr d \<Longrightarrow> snapshot_ok d"
proof -
  assume t: "transmitted fl cs vr now = Inr d"
  from transmitted_lookup [of fl cs vr now] t obtain items where d: "d = JObj items"
    and l: "\<And>h. map_of items (hand_key h) =
            (case controller_idx h cs of None \<Rightarrow> None
             | Some i \<Rightarrow> (case controller_entry fl vr i of Inr entry \<Rightarrow> Some (JObj entry) | Inl e \<Rightarrow> None))"
    by auto
  have "case map_of items (hand_key h) of None \<Rightarrow> True | Some e \<Rightarrow> entry_ok e" for h
    using l [of h] controller_entry_ok
    by (auto split: option.splits sum.splits)
  from this [of LeftHand] this [of RightHand] d show ?thesis
    by (simp add: snapshot_ok_def)
qed

lemma sender_snapshot_never_raises:
  assumes "transmitted fl cs vr now = Inr d"
  shows "\<exists>s'. update_controller_data (s\<lparr>latest_data := d\<rparr>) = Done s'"
  using update_total [of "s\<lparr>latest_data := d\<rparr>"] transmitted_ok [OF assms] by simp

section \<open>The polling loop\<close>

lemma collect_Inr: "\<exists>data. collect_controller_data fl cs vr = Inr data"
  using collect_lookup [of fl cs vr] by blast

lemma loop_ends:
  assumes "\<forall>j. i \<le> j \<and> j < k \<longrightarrow> (\<exists>vr now. passes j = Sample vr now)"
    and "passes k = KeyboardInterrupt \<or> passes k = OpenVRError"
    and "i \<le> k"
  shows "\<exists>sent'. polling_loop fl sending cs passes i sent = Some (k, sent')
           \<and> length sent' = length sent + (if sending then k - i else 0)"
  using assms
proof (induction "k - i" arbitrary: i sent)
  case 0
  then have "i = k" by simp
  with "0.prems"(2) show ?case
    by (subst polling_loop.simps) auto
next
  case (Suc n)
  then have lt: "i < k" by simp
  with Suc.prems(1) obtain vr now where s: "passes i = Sample vr now" by blast
  from collect_Inr [of fl cs vr] obtain data where d: "collect_controller_data fl cs vr = Inr data"
    by blast
  let ?sent1 = "if sending then sent @ [snapshot data now] else sent"
  have "\<exists>sent'. polling_loop fl sending cs passes (Suc i) ?sent1 = Some (k, sent')
           \<and> length sent' = length ?sent1 + (if sending then k - Suc i else 0)"
    using Suc.hyps(2) Suc.prems lt by (intro Suc.hyps(1)) auto
  then obtain sent' where r: "polling_loop fl sending cs passes (Suc i) ?sent1 = Some (k, sent')"
    and len: "length sent' = length ?sent1 + (if sending then k - Suc i else 0)"
    by blast
  have "polling_loop fl sending cs passes i sent = Some (k, sent')"
    by (subst polling_loop.simps) (simp add: s d r)
  moreover have "length sent' = length sent + (if sending then k - i else 0)"
    using len lt by auto
  ultimately show ?case by blast
qed

lemma loop_returns_at_end:
  assumes "polling_loop fl sending cs passes i sent = Some y"
  shows "passes (fst y) = KeyboardInterrupt \<or> passes (fst y) = OpenVRError"
proof (rule polling_loop.raw_induct
    [where P = "\<lambda>fl sending cs passes i sent y.
                  passes (fst y) = KeyboardInterrupt \<or> passes (fst y) = OpenVRError",
     OF _ assms])
  fix loop :: "float_ops \<Rightarrow> bool \<Rightarrow> controllers \<Rightarrow> (nat \<Rightarrow> pass) \<Rightarrow> nat \<Rightarrow> json list \<Rightarrow> (nat \<times> json list) option"
  fix fl sending cs passes i sent y
  assume IH: "\<And>fl sending cs passes i sent y. loop fl sending cs passes i sent = Some y \<Longrightarrow>
                passes (fst y) = KeyboardInterrupt \<or> passes (fst y) = OpenVRError"
  assume step: "(case passes i of
        KeyboardInterrupt \<Rightarrow> Some (i, sent)
      | OpenVRError \<Rightarrow> Some (i, sent)
      | Sample vr now \<Rightarrow>
          (case collect_controller_data fl cs vr of
             Inl e \<Rightarrow> Some (i, sent)
           | Inr controller_data \<Rightarrow>
               loop fl sending cs passes (Suc i)
                 (if sending then sent @ [snapshot controller_data now] else sent))) = Some y"
  show "passes (fst y) = KeyboardInterrupt \<or> passes (fst y) = OpenVRError"
  proof (cases "passes i")
    case KeyboardInterrupt
    with step show ?thesis by auto
  next
    case OpenVRError
    with step show ?thesis by auto
  next
    case (Sample vr now)
    from collect_Inr [of fl cs vr] obtain data where d: "collect_controller_data fl cs vr = Inr data"
      by blast
    from step Sample d
    have "loop fl sending cs passes (Suc i) (if sending then sent @ [snapshot data now] else sent) = Some y"
      by simp
    from IH [OF this] show ?thesis .
  qed
qed

lemma loop_never_returns:
  assumes "\<forall>j. \<exists>vr now. passes j = Sample vr now"
  shows "polling_loop fl sending cs passes i sent = None"
proof (cases "polling_loop fl sending cs passes i sent")
  case None
  then show ?thesis .
next
  case (Some y)
  from loop_returns_at_end [OF Some] assms show ?thesis
    by (metis pass.distinct(3) pass.distinct(5))
qed

text \<open>Every snapshot the loop hands to the socket is the snapshot of one of its passes.\<close>

lemma loop_sends_transmitted:
  assumes "polling_loop fl sending cs passes i sent = Some y"
  shows "\<forall>x \<in> set (snd y). x \<in> set sent \<or> (\<exists>vr now. transmitted fl cs vr now = Inr x)"
proof (rule polling_loop.raw_induct
    [where P = "\<lambda>fl sending cs passes i sent y.
                  \<forall>x \<in> set (snd y). x \<in> set sent \<or> (\<exists>vr now. transmitted fl cs vr now = Inr x)",
     OF _ assms])
  fix loop :: "float_ops \<Rightarrow> bool \<Rightarrow> controllers \<Rightarrow> (nat \<Rightarrow> pass) \<Rightarrow> nat \<Rightarrow> json list \<Rightarrow> (nat \<times> json list) option"
  fix fl sending cs passes i sent y
  assume IH: "\<And>fl sending cs passes i sent y. loop fl sending cs passes i sent = Some y \<Longrightarrow>
                \<forall>x \<in> set (snd y). x \<in> set sent \<or> (\<exists>vr now. transmitted fl cs vr now = Inr x)"
  assume step: "(case passes i of
        KeyboardInterrupt \<Rightarrow> Some (i, sent)
      | OpenVRError \<Rightarrow> Some (i, sent)
      | Sample vr now \<Rightarrow>
          (case collect_controller_data fl cs vr of
             Inl e \<Rightarrow> Some (i, sent)
           | Inr controller_data \<Rightarrow>
               loop fl sending cs passes (Suc i)
                 (if sending then sent @ [snapshot controller_data now] else sent))) = Some y"
  show "\<forall>x \<in> set (snd y). x \<in> set sent \<or> (\<exists>vr now. transmitted fl cs vr now = Inr x)"
  proof (cases "passes i")
    case KeyboardInterrupt
    with step show ?thesis by auto
  next
    case OpenVRError
    with step show ?thesis by auto
  next
    case (Sample vr now)
    from collect_Inr [of fl cs vr] obtain data where d: "collect_controller_data fl cs vr = Inr data"
      by blast
    then have t: "transmitted fl cs vr now = Inr (snapshot data now)"
      by (simp add: transmitted_def)
    from step Sample d
    have "loop fl sending cs passes (Suc i) (if sending then sent @ [snapshot data now] else sent) = Some y"
      by simp
    from IH [OF this] t show ?thesis by (auto split: if_splits)
  qed
qed

text \<open>
  Claim C4, as stated, fails: with both controllers tracked and neither Ctrl+C nor an
  exception, the loop \<open>while True\<close> never ends.
\<close>

theorem polling_loop_unbounded_counterexample:
  "polling_loop zero_ops True \<lparr> left_idx = Some 1, right_idx = Some 2 \<rparr> (\<lambda>i. Sample tracked_vr (real i)) 0 [] = None"
  by (rule loop_never_returns) blast

text \<open>
  Claim C4, amended. The loop has no bound of its own. It makes one pass per sample
  until Ctrl+C or an exception of the SDK arrives in pass \<open>k\<close>, and then the function
  returns after \<open>k\<close> completed passes, having handed \<open>k\<close> snapshots to the socket when a
  target is configured; without such an event it never returns; and whenever it returns,
  such an event is what ended it.
\<close>

theorem polling_loop_runs_until_interrupted:
  "((\<forall>j<k. \<exists>vr now. passes j = Sample vr now) \<and>
      (passes k = KeyboardInterrupt \<or> passes k = OpenVRError)
      \<longrightarrow> (\<exists>sent. polling_loop fl sending cs passes 0 [] = Some (k, sent) \<and>
                  length sent = (if sending then k else 0)))
   \<and> ((\<forall>j. \<exists>vr now. passes j = Sample vr now)
      \<longrightarrow> polling_loop fl sending cs passes 0 [] = None)
   \<and> (\<forall>y. polling_loop fl sending cs passes 0 [] = Some y
      \<longrightarrow> passes (fst y) = KeyboardInterrupt \<or> passes (fst y) = OpenVRError)"
  using loop_ends [of 0 k passes fl sending cs "[]"] loop_never_returns [of passes fl sending cs 0 "[]"]
    loop_returns_at_end [of fl sending cs passes 0 "[]"]
  by auto

text \<open>Two passes, then Ctrl+C.\<close>

theorem polling_loop_runs_until_interrupted_witness:
  "\<exists>sent. polling_loop zero_ops True \<lparr> left_idx = Some 1, right_idx = None \<rparr>
             (\<lambda>i. if i = 2 then KeyboardInterrupt else Sample untracked_vr 0) 0 [] = Some (2, sent)
          \<and> length sent = 2"
  using polling_loop_runs_until_interrupted
    [of 2 "\<lambda>i. if i = 2 then KeyboardInterrupt else Sample untracked_vr 0" zero_ops True
        "\<lparr> left_idx = Some 1, right_idx = None \<rparr>"]
  by auto

end
